theory Spec2Isabelle
  imports Complex_Main "HOL-Library.Sublist" "HOL-Library.AList"
begin

section \<open>Python values used by the pipeline\<close>

text \<open>
  The program is one Python module, \<^verbatim>\<open>main.py\<close>. Its functions are embedded below in the
  order of the source, with the source's names. Conventions of the embedding:

  \<^item> A Python \<^verbatim>\<open>str\<close> is a \<^typ>\<open>string\<close>; its characters are read as the code points
    0 to 255, on which \<^verbatim>\<open>str.lower\<close>, \<^verbatim>\<open>len\<close>, \<^verbatim>\<open>in\<close>, \<^verbatim>\<open>endswith\<close> and \<^verbatim>\<open>repr\<close> are
    written out as Python computes them.
  \<^item> A Python \<^verbatim>\<open>float\<close> is a \<^typ>\<open>real\<close>: arithmetic is exact, and rounding to two
    decimals rounds half to even.
  \<^item> The values Python takes from its environment (the random generator, the clock) are
    fields of a record \<open>env\<close>, one per call site.
  \<^item> The file system and the console are a record \<open>world\<close> that every function takes and
    returns.
\<close>

subsection \<open>Strings\<close>

definition is_upper_char :: "char \<Rightarrow> bool" where
  "is_upper_char c =
     (let n = (of_char c :: nat)
      in (65 \<le> n \<and> n \<le> 90) \<or> (192 \<le> n \<and> n \<le> 222 \<and> n \<noteq> 215))"

text \<open>
  An upper-case letter below code point 256 has bit 5 clear, and its lower-case letter is
  32 above it: lowering sets bit 5.
\<close>

definition lower_char :: "char \<Rightarrow> char" where
  "lower_char c =
     (if is_upper_char c
      then Char (digit0 c) (digit1 c) (digit2 c) (digit3 c) (digit4 c) True (digit6 c) (digit7 c)
      else c)"

definition py_lower :: "string \<Rightarrow> string" where
  "py_lower s = map lower_char s"

text \<open>\<open>str_contains s sub\<close> is Python's \<^verbatim>\<open>sub in s\<close>.\<close>

fun str_contains :: "string \<Rightarrow> string \<Rightarrow> bool" where
  "str_contains [] sub = (sub = [])"
| "str_contains (c # cs) sub = (prefix sub (c # cs) \<or> str_contains cs sub)"

text \<open>\<open>endswith s suf\<close> is Python's \<^verbatim>\<open>s.endswith(suf)\<close>.\<close>

definition endswith :: "string \<Rightarrow> string \<Rightarrow> bool" where
  "endswith s suf = suffix suf s"

text \<open>Decimal numerals: \<^verbatim>\<open>str(n)\<close> for an integer.\<close>

function str_nat :: "nat \<Rightarrow> string" where
  "str_nat n =
     (if n < 10 then [''0123456789'' ! n]
      else str_nat (n div 10) @ [''0123456789'' ! (n mod 10)])"
  by pat_completeness auto
termination
  by (relation "measure id") auto

declare str_nat.simps [simp del]

definition str_int :: "int \<Rightarrow> string" where
  "str_int i = (if i < 0 then ''-'' @ str_nat (nat (- i)) else str_nat (nat i))"

text \<open>
  \<^verbatim>\<open>repr\<close> of a string: single quotes, unless the string has a single quote and no double
  quote; the quote and the backslash are escaped, tab, newline and carriage return have
  their letters, and the other characters that are not printable are written in
  hexadecimal.
\<close>

definition hex2 :: "nat \<Rightarrow> string" where
  "hex2 n = [''0123456789abcdef'' ! ((n div 16) mod 16), ''0123456789abcdef'' ! (n mod 16)]"

definition repr_char :: "char \<Rightarrow> char \<Rightarrow> string" where
  "repr_char q c =
     (let n = (of_char c :: nat)
      in if c = q \<or> c = CHR 0x5C then [CHR 0x5C, c]
         else if c = CHR 0x09 then [CHR 0x5C, CHR ''t'']
         else if c = CHR 0x0A then [CHR 0x5C, CHR ''n'']
         else if c = CHR 0x0D then [CHR 0x5C, CHR ''r'']
         else if n < 32 \<or> n = 127 \<or> (128 \<le> n \<and> n \<le> 160) \<or> n = 173
         then [CHR 0x5C, CHR ''x''] @ hex2 n
         else [c])"

definition repr_str :: "string \<Rightarrow> string" where
  "repr_str s =
     (let q = (if CHR 0x27 \<in> set s \<and> CHR 0x22 \<notin> set s then CHR 0x22 else CHR 0x27)
      in [q] @ concat (map (repr_char q) s) @ [q])"

text \<open>\<open>join_with sep xs\<close> is Python's \<^verbatim>\<open>sep.join(xs)\<close>.\<close>

fun join_with :: "string \<Rightarrow> string list \<Rightarrow> string" where
  "join_with sep [] = []"
| "join_with sep [x] = x"
| "join_with sep (x # y # ys) = x @ sep @ join_with sep (y # ys)"

subsection \<open>Floats\<close>

text \<open>Rounding to the nearest integer, a half to the even one.\<close>

definition round_half_even :: "real \<Rightarrow> int" where
  "round_half_even y =
     (let f = \<lfloor>y\<rfloor>; d = y - of_int f
      in if d < 1 / 2 then f
         else if 1 / 2 < d then f + 1
         else if even f then f else f + 1)"

text \<open>\<open>py_round2 x\<close> is \<^verbatim>\<open>round(x, 2)\<close>; \<open>format_2f x\<close> is \<^verbatim>\<open>f"{x:.2f}"\<close>.\<close>

definition py_round2 :: "real \<Rightarrow> real" where
  "py_round2 x = of_int (round_half_even (x * 100)) / 100"

definition format_2f :: "real \<Rightarrow> string" where
  "format_2f x =
     (let c = nat (round_half_even (\<bar>x\<bar> * 100))
      in (if x < 0 then ''-'' else '''') @ str_nat (c div 100) @ ''.''
         @ [''0123456789'' ! ((c div 10) mod 10), ''0123456789'' ! (c mod 10)])"

text \<open>
  \<^verbatim>\<open>random.uniform(a, b)\<close> is \<^verbatim>\<open>a + (b - a) * random()\<close>; \<open>u\<close> is the value that
  \<^verbatim>\<open>random()\<close> returned, a number from 0 up to, not including, 1.
\<close>

definition uniform :: "real \<Rightarrow> real \<Rightarrow> real \<Rightarrow> real" where
  "uniform a b u = a + (b - a) * u"

subsection \<open>Dictionaries of entities\<close>

text \<open>
  The entities are a dictionary from field names to strings, integers and lists of
  strings. A Python dictionary keeps its keys in the order of insertion, so it is an
  association list; \<^const>\<open>AList.update\<close> stores a value as \<^verbatim>\<open>d[k] = v\<close> does, in
  place for a key that is there and at the end for a new one.
\<close>

datatype entity_value = EStr string | EInt int | EList "string list"

type_synonym entities = "(string \<times> entity_value) list"

definition dict_update :: "entities \<Rightarrow> (string \<times> entity_value) list \<Rightarrow> entities" where
  "dict_update d kvs = foldl (\<lambda>acc (k, v). AList.update k v acc) d kvs"

fun repr_value :: "entity_value \<Rightarrow> string" where
  "repr_value (EStr s) = repr_str s"
| "repr_value (EInt i) = str_int i"
| "repr_value (EList xs) = ''['' @ join_with '', '' (map repr_str xs) @ '']''"

definition repr_entities :: "entities \<Rightarrow> string" where
  "repr_entities d =
     ''{'' @ join_with '', '' (map (\<lambda>(k, v). repr_str k @ '': '' @ repr_value v) d) @ ''}''"

section \<open>The environment: console, file system, random generator, clock\<close>

text \<open>
  A file-system entry. \<open>is_file\<close> is what \<^verbatim>\<open>os.path.isfile\<close> answers for it. \<open>stat_size\<close>
  is the outcome of \<^verbatim>\<open>os.path.getsize\<close>: the size, or \<open>Inl m\<close> for an \<^verbatim>\<open>OSError\<close> whose
  text is \<open>m\<close>. \<open>content\<close> is the outcome of opening the file in text mode and reading
  it: the decoded text, or \<open>Inl m\<close> for the exception raised (an \<^verbatim>\<open>OSError\<close> or a
  \<^verbatim>\<open>UnicodeDecodeError\<close>) with text \<open>m\<close>. \<open>rename_error\<close> is \<open>Some m\<close> when \<^verbatim>\<open>os.rename\<close>
  of this entry raises an \<^verbatim>\<open>OSError\<close> with text \<open>m\<close>.
\<close>

record node =
  is_file :: bool
  stat_size :: "string + nat"
  content :: "string + string"
  rename_error :: "string option"

text \<open>
  The world: the entries of the file system by path, in the order in which
  \<^verbatim>\<open>os.listdir\<close> reports them, and the lines that \<^verbatim>\<open>print_agent_step\<close> has printed (agent
  name, message, colour code; the time stamp of a line is left out).
\<close>

record world =
  files :: "(string \<times> node) list"
  console :: "(string \<times> string \<times> string) list"

record env =
  now_ingestion :: string
  now_routed :: string
  today :: int
  strftime_ymd :: "int \<Rightarrow> string"
  randint_invoice_id :: int
  random_amount :: real
  randint_term :: int
  randint_years :: int
  random_confidence :: real

text \<open>
  In \<open>env\<close>: \<open>now_ingestion\<close> and \<open>now_routed\<close> are \<^verbatim>\<open>datetime.datetime.now().isoformat()\<close>
  at the two places that call it; \<open>today\<close> is \<^verbatim>\<open>datetime.date.today()\<close> as a day number
  and \<open>strftime_ymd\<close> formats a day as \<^verbatim>\<open>strftime("%Y-%m-%d")\<close> does; \<open>randint_invoice_id\<close>,
  \<open>randint_term\<close> and \<open>randint_years\<close> are the results of \<^verbatim>\<open>random.randint(1000, 9999)\<close>,
  \<^verbatim>\<open>random.randint(1, 5)\<close> and \<^verbatim>\<open>random.randint(2, 10)\<close>; \<open>random_amount\<close> and
  \<open>random_confidence\<close> are the results of \<^verbatim>\<open>random()\<close> inside the two uses of
  \<^verbatim>\<open>random.uniform\<close>.
\<close>

definition DOCS_TO_PROCESS_DIR :: string where
  "DOCS_TO_PROCESS_DIR = ''documents_to_process''"

definition PROCESSED_DOCS_DIR :: string where
  "PROCESSED_DOCS_DIR = ''processed_documents''"

definition print_agent_step :: "string \<Rightarrow> string \<Rightarrow> string \<Rightarrow> world \<Rightarrow> world" where
  "print_agent_step agent_name message color_code w =
     w\<lparr>console := console w @ [(agent_name, message, color_code)]\<rparr>"

subsection \<open>File-system calls\<close>

text \<open>\<^verbatim>\<open>os.path.join(a, b)\<close> on a POSIX system.\<close>

definition os_path_join :: "string \<Rightarrow> string \<Rightarrow> string" where
  "os_path_join a b =
     (if prefix ''/'' b then b
      else if a = [] \<or> endswith a ''/'' then a @ b
      else a @ ''/'' @ b)"

text \<open>
  \<open>child_name d p\<close> is the name of \<open>p\<close> inside the directory \<open>d\<close>, when \<open>p\<close> is an entry of
  \<open>d\<close> itself.
\<close>

fun strip_prefix :: "string \<Rightarrow> string \<Rightarrow> string option" where
  "strip_prefix [] s = Some s"
| "strip_prefix (c # cs) [] = None"
| "strip_prefix (c # cs) (x # xs) = (if c = x then strip_prefix cs xs else None)"

definition child_name :: "string \<Rightarrow> string \<Rightarrow> string option" where
  "child_name d p =
     (case strip_prefix (d @ ''/'') p of
        None \<Rightarrow> None
      | Some n \<Rightarrow> if n \<noteq> [] \<and> CHR ''/'' \<notin> set n then Some n else None)"

definition os_listdir :: "world \<Rightarrow> string \<Rightarrow> string list" where
  "os_listdir w d = List.map_filter (\<lambda>(p, nd). child_name d p) (files w)"

definition os_path_isfile :: "world \<Rightarrow> string \<Rightarrow> bool" where
  "os_path_isfile w p = (case map_of (files w) p of None \<Rightarrow> False | Some nd \<Rightarrow> is_file nd)"

definition no_such_file :: "string \<Rightarrow> string" where
  "no_such_file p = ''[Errno 2] No such file or directory: '' @ repr_str p"

definition os_path_getsize :: "world \<Rightarrow> string \<Rightarrow> string + nat" where
  "os_path_getsize w p =
     (case map_of (files w) p of None \<Rightarrow> Inl (no_such_file p) | Some nd \<Rightarrow> stat_size nd)"

definition open_read :: "world \<Rightarrow> string \<Rightarrow> string + string" where
  "open_read w p =
     (case map_of (files w) p of None \<Rightarrow> Inl (no_such_file p) | Some nd \<Rightarrow> content nd)"

text \<open>
  \<^verbatim>\<open>os.rename(src, dst)\<close>: the entry leaves \<open>src\<close> and is at \<open>dst\<close>, where it replaces
  what was there.
\<close>

definition os_rename :: "world \<Rightarrow> string \<Rightarrow> string \<Rightarrow> string + world" where
  "os_rename w src dst =
     (case map_of (files w) src of
        None \<Rightarrow> Inl (no_such_file src)
      | Some nd \<Rightarrow>
          (case rename_error nd of
             Some m \<Rightarrow> Inl m
           | None \<Rightarrow>
               Inr (w\<lparr>files := filter (\<lambda>(p, _). p \<noteq> src \<and> p \<noteq> dst) (files w) @ [(dst, nd)]\<rparr>)))"

section \<open>The entity extraction service\<close>

definition no_structure_error :: string where
  "no_structure_error = ''Could not determine document structure for entity extraction.''"

definition mock_llm_entity_extraction :: "env \<Rightarrow> string \<Rightarrow> world \<Rightarrow> entities \<times> world" where
  "mock_llm_entity_extraction ev text_content w =
     (let w1 = print_agent_step ''LLM Service'' ''Analyzing text for entities...'' ''35'' w;
          text_lower = py_lower text_content;
          entities0 = [(''source_text_length'', EInt (int (length text_content)))];
          entities1 =
            (if str_contains text_lower ''invoice'' then
               dict_update entities0
                 [(''InvoiceID'', EStr (''INV-'' @ str_int (randint_invoice_id ev))),
                  (''Amount'', EStr (''$'' @ format_2f (uniform 100 5000 (random_amount ev)))),
                  (''DueDate'', EStr (strftime_ymd ev (today ev + 30)))]
             else if str_contains text_lower ''contract'' then
               dict_update entities0
                 [(''ContractingParties'', EList [''ABC Corp'', ''XYZ Inc.'']),
                  (''EffectiveDate'', EStr (strftime_ymd ev (today ev))),
                  (''Term'', EStr (str_int (randint_term ev) @ '' Years''))]
             else if str_contains text_lower ''resume'' then
               dict_update entities0
                 [(''CandidateName'', EStr ''Jane Doe''),
                  (''YearsOfExperience'', EInt (randint_years ev)),
                  (''KeySkills'', EList [''Python'', ''GenAI'', ''System Design''])]
             else AList.update ''error'' (EStr no_structure_error) entities0);
          w2 = print_agent_step ''LLM Service''
                 (''Extraction complete. Found '' @ str_int (int (length entities1) - 1)
                    @ '' entities.'') ''35'' w1
      in (entities1, w2))"

section \<open>The event and the agents\<close>

text \<open>
  The event is the dictionary that the Ingestor creates and that each later agent
  updates in place and returns. The keys the Ingestor sets are fields; a key that a later
  agent adds is an optional field, \<open>None\<close> while the key is absent. The status is the
  string of the source.
\<close>

record metadata =
  size_bytes :: nat
  ingestion_time :: string

record classification =
  document_type :: string
  confidence :: real

record routing_info =
  action_taken :: string
  routed_at :: string

record event =
  status :: string
  filename :: string
  original_path :: string
  metadata :: metadata
  extracted_text :: "string option"
  extracted_entities :: "entities option"
  classification :: "classification option"
  routing_info :: "routing_info option"
  error_message :: "string option"

text \<open>An exception that no handler of the program catches.\<close>

datatype py_error = KeyError string

subsection \<open>Ingestor\<close>

definition IngestorAgent_init :: "string \<Rightarrow> world \<Rightarrow> world" where
  "IngestorAgent_init watch_directory w =
     print_agent_step ''Ingestor Agent''
       (''Monitoring directory: '' @ [CHR 0x27] @ watch_directory @ [CHR 0x27]) ''36'' w"

text \<open>
  The loop of \<^verbatim>\<open>IngestorAgent.run\<close> over the listing: it returns at the first regular
  file whose size it can read, and goes on to the next name after an \<^verbatim>\<open>OSError\<close>.
\<close>

fun ingest_files :: "env \<Rightarrow> string \<Rightarrow> string list \<Rightarrow> world \<Rightarrow> event option \<times> world" where
  "ingest_files ev watch_directory [] w = (None, w)"
| "ingest_files ev watch_directory (fname # rest) w =
     (let file_path = os_path_join watch_directory fname
      in if os_path_isfile w file_path then
           (let w1 = print_agent_step ''Ingestor Agent''
                       (''New file detected: '' @ [CHR 0x27] @ fname @ [CHR 0x27]) ''36'' w
            in case os_path_getsize w1 file_path of
                 Inr file_size \<Rightarrow>
                   (Some \<lparr>status = ''INGESTED'',
                          filename = fname,
                          original_path = file_path,
                          metadata = \<lparr>size_bytes = file_size,
                                      ingestion_time = now_ingestion ev\<rparr>,
                          extracted_text = None,
                          extracted_entities = None,
                          classification = None,
                          routing_info = None,
                          error_message = None\<rparr>,
                    print_agent_step ''Ingestor Agent''
                      (''File size: '' @ str_nat file_size
                         @ '' bytes. Event '' @ [CHR 0x27] @ ''INGESTED'' @ [CHR 0x27]
                         @ '' created.'') ''36'' w1)
               | Inl e \<Rightarrow>
                   ingest_files ev watch_directory rest
                     (print_agent_step ''Ingestor Agent''
                        (''Error accessing file '' @ fname @ '': '' @ e) ''31'' w1))
         else ingest_files ev watch_directory rest w)"

definition IngestorAgent_run :: "env \<Rightarrow> string \<Rightarrow> world \<Rightarrow> event option \<times> world" where
  "IngestorAgent_run ev watch_directory w =
     ingest_files ev watch_directory (os_listdir w watch_directory) w"

subsection \<open>Extractor\<close>

definition ocr_placeholder :: "string \<Rightarrow> string" where
  "ocr_placeholder fname =
     ''Simulated OCR content for '' @ fname
       @ ''. Contains keywords: invoice, contract, or resume.''"

text \<open>
  The part of \<^verbatim>\<open>ExtractorAgent.run\<close> after the text is there: the call of the service
  and the update of the event.
\<close>

definition extract_from_text :: "env \<Rightarrow> event \<Rightarrow> string \<Rightarrow> world \<Rightarrow> event \<times> world" where
  "extract_from_text ev e text_content w =
     (let (ents, w1) = mock_llm_entity_extraction ev text_content w
      in (e\<lparr>status := ''EXTRACTED'',
             extracted_text := Some text_content,
             extracted_entities := Some ents\<rparr>,
          print_agent_step ''Extractor Agent''
            (''Event '' @ [CHR 0x27] @ ''EXTRACTED'' @ [CHR 0x27] @ '' created.'') ''36'' w1))"

definition ExtractorAgent_run :: "env \<Rightarrow> event \<Rightarrow> world \<Rightarrow> event \<times> world" where
  "ExtractorAgent_run ev e w =
     (let w1 = print_agent_step ''Extractor Agent''
                 (''Received event for '' @ [CHR 0x27] @ filename e @ [CHR 0x27]) ''36'' w;
          file_path = original_path e
      in if endswith file_path ''.txt'' then
           (case open_read w1 file_path of
              Inr text_content \<Rightarrow>
                extract_from_text ev e text_content
                  (print_agent_step ''Extractor Agent''
                     ''Text content successfully read from file.'' ''36'' w1)
            | Inl msg \<Rightarrow>
                (e\<lparr>status := ''EXTRACTION_FAILED'', error_message := Some msg\<rparr>,
                 print_agent_step ''Extractor Agent''
                   (''An error occurred: '' @ msg) ''31'' w1))
         else
           extract_from_text ev e (ocr_placeholder (filename e))
             (print_agent_step ''Extractor Agent''
                ''Simulating OCR for non-TXT file.'' ''36'' w1))"

subsection \<open>Classifier\<close>

definition ClassifierAgent_run :: "env \<Rightarrow> event \<Rightarrow> world \<Rightarrow> event \<times> world" where
  "ClassifierAgent_run ev e w =
     (let w1 = print_agent_step ''Classifier Agent''
                 (''Received event for '' @ [CHR 0x27] @ filename e @ [CHR 0x27]) ''36'' w;
          text_to_classify =
            py_lower (case extracted_text e of None \<Rightarrow> [] | Some t \<Rightarrow> t);
          (doc_type, conf) =
            (if str_contains text_to_classify ''invoice'' then
               (''Invoice'', uniform 0.90 0.99 (random_confidence ev))
             else if str_contains text_to_classify ''contract'' then
               (''Contract'', uniform 0.85 0.95 (random_confidence ev))
             else if str_contains text_to_classify ''resume'' then
               (''Resume'', uniform 0.88 0.98 (random_confidence ev))
             else (''Unknown'', uniform 0.40 0.60 (random_confidence ev)))
      in (e\<lparr>status := ''CLASSIFIED'',
             classification := Some \<lparr>document_type = doc_type,
                                     confidence = py_round2 conf\<rparr>\<rparr>,
          print_agent_step ''Classifier Agent''
            (''Document classified as '' @ [CHR 0x27] @ doc_type @ [CHR 0x27] @ '' with ''
               @ format_2f conf @ '' confidence.'') ''36'' w1))"

subsection \<open>Router\<close>

text \<open>
  The action of the Router. Only the branch for an invoice reads the entities, and
  \<^verbatim>\<open>event['extracted_entities']\<close> raises a \<^verbatim>\<open>KeyError\<close> when the key is absent.
\<close>

definition routing_action :: "event \<Rightarrow> string \<Rightarrow> py_error + string" where
  "routing_action e doc_type =
     (if doc_type = ''Invoice'' then
        (case extracted_entities e of
           None \<Rightarrow> Inl (KeyError ''extracted_entities'')
         | Some ents \<Rightarrow> Inr (''Calling ERP API with invoice data: '' @ repr_entities ents))
      else if doc_type = ''Contract'' then
        Inr ''Archiving contract to legal department database.''
      else if doc_type = ''Resume'' then
        Inr ''Forwarding resume to HR Applicant Tracking System.''
      else Inr ''Flagging document for manual review.'')"

definition RouterAgent_run :: "env \<Rightarrow> event \<Rightarrow> world \<Rightarrow> py_error + event \<times> world" where
  "RouterAgent_run ev e w =
     (let w1 = print_agent_step ''Router Agent''
                 (''Received event for '' @ [CHR 0x27] @ filename e @ [CHR 0x27]) ''36'' w;
          doc_type = (case classification e of None \<Rightarrow> ''Unknown'' | Some c \<Rightarrow> document_type c)
      in case routing_action e doc_type of
           Inl err \<Rightarrow> Inl err
         | Inr action \<Rightarrow>
             (let w2 = print_agent_step ''Router Agent'' (''Action: '' @ action) ''36'' w1
              in Inr (e\<lparr>status := ''ROUTED'',
                         routing_info := Some \<lparr>action_taken = action,
                                               routed_at = now_routed ev\<rparr>\<rparr>,
                      print_agent_step ''Router Agent''
                        (''Event '' @ [CHR 0x27] @ ''ROUTED'' @ [CHR 0x27]
                           @ '' created. Document processing complete.'') ''36'' w2)))"

section \<open>The orchestration\<close>

text \<open>
  One turn of the loop of \<^verbatim>\<open>main\<close> is \<open>main_cycle\<close>: the Ingestor, then \<open>run_stages\<close>
  (the Extractor and, unless the status has \<^verbatim>\<open>FAILED\<close> in it, the Classifier and the
  Router), then \<open>move_processed_file\<close>. The banners and the JSON dumps that \<^verbatim>\<open>main\<close>
  prints by itself are not part of the console of the model, and nothing but the
  program changes the file system.
\<close>

definition run_stages :: "env \<Rightarrow> event \<Rightarrow> world \<Rightarrow> py_error + event \<times> world" where
  "run_stages ev e w =
     (let (e1, w1) = ExtractorAgent_run ev e w
      in if \<not> str_contains (status e1) ''FAILED'' then
           (let (e2, w2) = ClassifierAgent_run ev e1 w1
            in RouterAgent_run ev e2 w2)
         else Inr (e1, w1))"

definition move_processed_file :: "event \<Rightarrow> world \<Rightarrow> world" where
  "move_processed_file e w =
     (let processed_path = os_path_join PROCESSED_DOCS_DIR (filename e)
      in case os_rename w (original_path e) processed_path of
           Inr w1 \<Rightarrow>
             print_agent_step ''Orchestrator''
               (''Moved '' @ [CHR 0x27] @ filename e @ [CHR 0x27] @ '' to ''
                  @ [CHR 0x27] @ PROCESSED_DOCS_DIR @ [CHR 0x27]) ''34'' w1
         | Inl msg \<Rightarrow>
             print_agent_step ''Orchestrator'' (''Could not move file: '' @ msg) ''31'' w)"

definition main_cycle :: "env \<Rightarrow> world \<Rightarrow> py_error + event option \<times> world" where
  "main_cycle ev w =
     (case IngestorAgent_run ev DOCS_TO_PROCESS_DIR w of
        (None, w1) \<Rightarrow> Inr (None, w1)
      | (Some e, w1) \<Rightarrow>
          (case run_stages ev e w1 of
             Inl err \<Rightarrow> Inl err
           | Inr (e1, w2) \<Rightarrow> Inr (Some e1, move_processed_file e1 w2)))"

text \<open>
  The loop runs until the keyboard interrupt; the list holds the environment of each
  turn that begins before it.
\<close>

fun main_loop :: "env list \<Rightarrow> world \<Rightarrow> py_error + world" where
  "main_loop [] w = Inr w"
| "main_loop (ev # evs) w =
     (case main_cycle ev w of
        Inl err \<Rightarrow> Inl err
      | Inr (_, w1) \<Rightarrow> main_loop evs w1)"

definition main :: "env list \<Rightarrow> world \<Rightarrow> py_error + world" where
  "main evs w = main_loop evs (IngestorAgent_init DOCS_TO_PROCESS_DIR w)"

section \<open>What the statements below speak of\<close>

subsection \<open>The specification's words\<close>

text \<open>
  The document type as the specification words it: the keywords in the order of their
  priority, each with its type; the first keyword that occurs in the lowered text gives
  the type, and \<open>Unknown\<close> is the type when none occurs.
\<close>

definition keyword_priority :: "(string \<times> string) list" where
  "keyword_priority =
     [(''invoice'', ''Invoice''), (''contract'', ''Contract''), (''resume'', ''Resume'')]"

definition spec_document_type :: "string \<Rightarrow> string" where
  "spec_document_type text =
     (case find (\<lambda>(kw, ty). sublist kw (py_lower text)) keyword_priority of
        None \<Rightarrow> ''Unknown''
      | Some (kw, ty) \<Rightarrow> ty)"

text \<open>The range of the confidence for each type, as the specification lists it.\<close>

definition spec_confidence_range :: "string \<Rightarrow> real \<times> real" where
  "spec_confidence_range ty =
     (if ty = ''Invoice'' then (0.90, 0.99)
      else if ty = ''Contract'' then (0.85, 0.95)
      else if ty = ''Resume'' then (0.88, 0.98)
      else (0.40, 0.60))"

subsection \<open>Reading an event and a console\<close>

text \<open>The text an event carries, empty when the key is absent.\<close>

definition text_of :: "event \<Rightarrow> string" where
  "text_of e = (case extracted_text e of None \<Rightarrow> [] | Some t \<Rightarrow> t)"

text \<open>
  The text the Extractor works on: what it reads from a text file, the placeholder for
  any other file.
\<close>

definition resolved_text :: "world \<Rightarrow> event \<Rightarrow> string" where
  "resolved_text w e =
     (if endswith (original_path e) ''.txt''
      then (case open_read w (original_path e) of Inr t \<Rightarrow> t | Inl m \<Rightarrow> [])
      else ocr_placeholder (filename e))"

text \<open>The document type the Router reads from an event.\<close>

definition classified_type :: "event \<Rightarrow> string" where
  "classified_type e =
     (case classification e of None \<Rightarrow> ''Unknown'' | Some c \<Rightarrow> document_type c)"

text \<open>
  The agents that printed a line between the world \<open>w\<close> and the later world \<open>w'\<close>. Every
  agent prints a line when it is called, so an agent that is not among them was not
  called.
\<close>

definition agents_since :: "world \<Rightarrow> world \<Rightarrow> string list" where
  "agents_since w w' = map fst (drop (length (console w)) (console w'))"

text \<open>The entry at a path, if there is one.\<close>

definition entry_at :: "world \<Rightarrow> string \<Rightarrow> node option" where
  "entry_at w p = map_of (files w) p"

text \<open>
  The Ingestor can claim a name when the path is a regular file whose size can be read.
\<close>

definition claimable :: "world \<Rightarrow> string \<Rightarrow> string \<Rightarrow> bool" where
  "claimable w d n =
     (os_path_isfile w (os_path_join d n) \<and> \<not> isl (os_path_getsize w (os_path_join d n)))"



text \<open>
  What an event that leaves the pipeline must look like: either routed, with its
  classification and its routing record, or failed, with its error message.
\<close>

definition routed_complete :: "event \<Rightarrow> bool" where
  "routed_complete e =
     (status e = ''ROUTED'' \<and> classification e \<noteq> None \<and> routing_info e \<noteq> None)"

definition failed_with_message :: "event \<Rightarrow> bool" where
  "failed_with_message e = (status e = ''EXTRACTION_FAILED'' \<and> error_message e \<noteq> None)"

text \<open>
  The rule for the entities: there from the status \<open>EXTRACTED\<close> on, absent in a failed
  event.
\<close>

definition entities_rule :: "event \<Rightarrow> bool" where
  "entities_rule e =
     ((status e = ''EXTRACTED'' \<or> status e = ''CLASSIFIED'' \<or> status e = ''ROUTED''
         \<longrightarrow> extracted_entities e \<noteq> None)
      \<and> (status e = ''EXTRACTION_FAILED'' \<longrightarrow> extracted_entities e = None))"

text \<open>The event and the world at the end of a turn of the loop, and the action of a routed event.\<close>

definition final_event :: "py_error + event option \<times> world \<Rightarrow> event option" where
  "final_event r = (case r of Inl err \<Rightarrow> None | Inr (e, w) \<Rightarrow> e)"

definition final_world :: "py_error + event option \<times> world \<Rightarrow> world option" where
  "final_world r = (case r of Inl err \<Rightarrow> None | Inr (e, w) \<Rightarrow> Some w)"

definition routed_action :: "py_error + event \<times> world \<Rightarrow> string option" where
  "routed_action r =
     (case r of Inl err \<Rightarrow> None | Inr (e, w) \<Rightarrow> map_option action_taken (routing_info e))"

definition final_entry :: "py_error + event option \<times> world \<Rightarrow> string \<Rightarrow> node option" where
  "final_entry r p = (case r of Inl err \<Rightarrow> None | Inr (e, w) \<Rightarrow> entry_at w p)"

subsection \<open>Example inputs\<close>

definition example_strftime :: "int \<Rightarrow> string" where
  "example_strftime d = ''day '' @ str_int d"

definition example_env :: env where
  "example_env =
     \<lparr>now_ingestion = ''2026-11-04T10:00:00'',
      now_routed = ''2026-11-04T10:00:05'',
      today = 20761,
      strftime_ymd = example_strftime,
      randint_invoice_id = 1234,
      random_amount = 1 / 2,
      randint_term = 3,
      randint_years = 5,
      random_confidence = 1 / 4\<rparr>"

definition empty_world :: world where
  "empty_world = \<lparr>files = [], console = []\<rparr>"

text \<open>A text file that the process is not allowed to open.\<close>

definition unreadable_node :: node where
  "unreadable_node =
     \<lparr>is_file = True,
      stat_size = Inr 29,
      content = Inl ''[Errno 13] Permission denied'',
      rename_error = None\<rparr>"

definition world_unreadable :: world where
  "world_unreadable =
     \<lparr>files = [(''documents_to_process/a.txt'', unreadable_node)], console = []\<rparr>"

text \<open>Two regular files in the intake directory, a text file and a PDF.\<close>

definition invoice_node :: node where
  "invoice_node =
     \<lparr>is_file = True,
      stat_size = Inr 29,
      content = Inr ''Invoice #1234, due next month'',
      rename_error = None\<rparr>"

definition pdf_node :: node where
  "pdf_node =
     \<lparr>is_file = True,
      stat_size = Inr 29,
      content = Inr ''%PDF-1.'',
      rename_error = None\<rparr>"

definition world_two_files :: world where
  "world_two_files =
     \<lparr>files = [(''documents_to_process/a.txt'', invoice_node),
               (''documents_to_process/b.pdf'', pdf_node)],
      console = []\<rparr>"

definition world_pdf :: world where
  "world_pdf = \<lparr>files = [(''documents_to_process/b.pdf'', pdf_node)], console = []\<rparr>"

text \<open>An event as the Ingestor makes it, and classified events as the Router gets them.\<close>

definition ingested_event :: "string \<Rightarrow> event" where
  "ingested_event fname =
     \<lparr>status = ''INGESTED'',
      filename = fname,
      original_path = os_path_join DOCS_TO_PROCESS_DIR fname,
      metadata = \<lparr>size_bytes = 29, ingestion_time = ''2026-11-04T10:00:00''\<rparr>,
      extracted_text = None,
      extracted_entities = None,
      classification = None,
      routing_info = None,
      error_message = None\<rparr>"

definition classified_event :: "string \<Rightarrow> entities \<Rightarrow> event" where
  "classified_event ty ents =
     (ingested_event ''a.txt'')
       \<lparr>status := ''CLASSIFIED'',
        extracted_text := Some ''Invoice #1234, due next month'',
        extracted_entities := Some ents,
        classification := Some \<lparr>document_type = ty, confidence = 0.94\<rparr>\<rparr>"

text \<open>
  The world after the Ingestor has run in an example world, the world after the Extractor
  has then run on the event of a file, and the event of the unreadable file after the
  Extractor.
\<close>

definition after_ingest :: "world \<Rightarrow> world" where
  "after_ingest w = snd (IngestorAgent_run example_env DOCS_TO_PROCESS_DIR w)"

definition after_extract :: "string \<Rightarrow> world \<Rightarrow> world" where
  "after_extract fname w =
     snd (ExtractorAgent_run example_env (ingested_event fname) (after_ingest w))"

definition failed_event :: event where
  "failed_event =
     (ingested_event ''a.txt'')
       \<lparr>status := ''EXTRACTION_FAILED'',
        error_message := Some ''[Errno 13] Permission denied''\<rparr>"

definition entities_a :: entities where
  "entities_a = [(''source_text_length'', EInt 29), (''InvoiceID'', EStr ''INV-1234'')]"

definition entities_b :: entities where
  "entities_b = [(''source_text_length'', EInt 29), (''InvoiceID'', EStr ''INV-5678'')]"

section \<open>Facts about the parts\<close>

subsection \<open>Strings and numbers\<close>

lemma str_contains_sublist: "str_contains s sub \<longleftrightarrow> sublist sub s"
  by (induction s) (auto simp: sublist_Cons_right)

lemma py_lower_append: "py_lower (a @ b) = py_lower a @ py_lower b"
  by (simp add: py_lower_def)

lemma contains_lower_iff:
  "str_contains (py_lower s) kw \<longleftrightarrow> (\<exists>pre x post. s = pre @ x @ post \<and> py_lower x = kw)"
proof
  assume "str_contains (py_lower s) kw"
  then obtain ps ss where "map lower_char s = ps @ kw @ ss"
    by (auto simp: str_contains_sublist sublist_def py_lower_def)
  then obtain pre rest where s: "s = pre @ rest" and rest: "map lower_char rest = kw @ ss"
    by (metis map_eq_append_conv)
  from rest obtain x post where "rest = x @ post" and "map lower_char x = kw"
    by (metis map_eq_append_conv)
  with s show "\<exists>pre x post. s = pre @ x @ post \<and> py_lower x = kw"
    by (auto simp: py_lower_def)
next
  assume "\<exists>pre x post. s = pre @ x @ post \<and> py_lower x = kw"
  then show "str_contains (py_lower s) kw"
    by (auto simp: str_contains_sublist py_lower_append)
qed

lemma files_print_agent_step [simp]: "files (print_agent_step a m c w) = files w"
  by (simp add: print_agent_step_def)

lemma console_print_agent_step [simp]:
  "console (print_agent_step a m c w) = console w @ [(a, m, c)]"
  by (simp add: print_agent_step_def)

lemma isfile_print [simp]: "os_path_isfile (print_agent_step a m c w) p = os_path_isfile w p"
  by (simp add: os_path_isfile_def)

lemma getsize_print [simp]: "os_path_getsize (print_agent_step a m c w) p = os_path_getsize w p"
  by (simp add: os_path_getsize_def)

lemma open_read_print [simp]: "open_read (print_agent_step a m c w) p = open_read w p"
  by (simp add: open_read_def)

lemma agents_since_refl [simp]: "agents_since w w = []"
  by (simp add: agents_since_def)

lemma mock_llm_files [simp]: "files (snd (mock_llm_entity_extraction ev t w)) = files w"
  by (simp add: mock_llm_entity_extraction_def Let_def)

lemma mock_llm_console:
  "\<exists>m. console (snd (mock_llm_entity_extraction ev t w)) =
     console w @ [(''LLM Service'', ''Analyzing text for entities...'', ''35''),
                  (''LLM Service'', m, ''35'')]"
  by (simp add: mock_llm_entity_extraction_def Let_def)

lemma ingest_files_files [simp]: "files (snd (ingest_files ev d names w)) = files w"
  by (induction names arbitrary: w) (auto simp: Let_def split: sum.splits)

lemma ingest_files_Some:
  assumes "ingest_files ev d names w = (Some e, w')"
  shows "\<exists>pre n post sz. names = pre @ n # post \<and> (\<forall>m \<in> set pre. \<not> claimable w d m)
           \<and> claimable w d n \<and> os_path_getsize w (os_path_join d n) = Inr sz
           \<and> e = \<lparr>status = ''INGESTED'', filename = n, original_path = os_path_join d n,
                  metadata = \<lparr>size_bytes = sz, ingestion_time = now_ingestion ev\<rparr>,
                  extracted_text = None, extracted_entities = None, classification = None,
                  routing_info = None, error_message = None\<rparr>"
  using assms
proof (induction names arbitrary: w)
  case Nil
  then show ?case by simp
next
  case (Cons a names)
  show ?case
  proof (cases "claimable w d a")
    case True
    then obtain sz where sz: "os_path_getsize w (os_path_join d a) = Inr sz"
      by (cases "os_path_getsize w (os_path_join d a)") (auto simp: claimable_def)
    with True Cons.prems show ?thesis
      by (intro exI[of _ "[]"] exI[of _ a] exI[of _ names] exI[of _ sz])
         (auto simp: Let_def claimable_def)
  next
    case False
    then obtain w1 where rec: "ingest_files ev d names w1 = (Some e, w')" and f: "files w1 = files w"
      using Cons.prems by (auto simp: Let_def claimable_def split: if_splits sum.splits)
    have same: "\<And>m. claimable w1 d m = claimable w d m"
      using f by (simp add: claimable_def os_path_isfile_def os_path_getsize_def)
    from Cons.IH[OF rec] obtain pre n post sz where
      "names = pre @ n # post" "\<forall>m \<in> set pre. \<not> claimable w d m" "claimable w d n"
      "os_path_getsize w (os_path_join d n) = Inr sz"
      "e = \<lparr>status = ''INGESTED'', filename = n, original_path = os_path_join d n,
                  metadata = \<lparr>size_bytes = sz, ingestion_time = now_ingestion ev\<rparr>,
                  extracted_text = None, extracted_entities = None, classification = None,
                  routing_info = None, error_message = None\<rparr>"
      using same f by (auto simp: os_path_getsize_def)
    with False show ?thesis
      by (intro exI[of _ "a # pre"] exI[of _ n] exI[of _ post] exI[of _ sz]) auto
  qed
qed


lemma ingest_files_console:
  "\<exists>xs. console (snd (ingest_files ev d names w)) = console w @ xs
        \<and> set (map fst xs) \<subseteq> {''Ingestor Agent''}"
proof (induction names arbitrary: w)
  case Nil
  then show ?case by simp
next
  case (Cons a names)
  let ?w1 = "print_agent_step ''Ingestor Agent''
               (''New file detected: '' @ [CHR 0x27] @ a @ [CHR 0x27]) ''36'' w"
  show ?case
  proof (cases "os_path_isfile w (os_path_join d a)")
    case False
    then show ?thesis using Cons.IH[of w] by (simp add: Let_def)
  next
    case True
    show ?thesis
    proof (cases "os_path_getsize w (os_path_join d a)")
      case (Inr sz)
      with True show ?thesis by (simp add: Let_def)
    next
      case (Inl m)
      let ?w2 = "print_agent_step ''Ingestor Agent''
                   (''Error accessing file '' @ a @ '': '' @ m) ''31'' ?w1"
      from Cons.IH[of ?w2] obtain xs where
        "console (snd (ingest_files ev d names ?w2)) = console ?w2 @ xs"
        "set (map fst xs) \<subseteq> {''Ingestor Agent''}" by blast
      with True Inl show ?thesis by (simp add: Let_def)
    qed
  qed
qed

lemma extract_from_text_eq:
  "extract_from_text ev e t w =
     (e\<lparr>status := ''EXTRACTED'', extracted_text := Some t,
        extracted_entities := Some (fst (mock_llm_entity_extraction ev t w))\<rparr>,
      print_agent_step ''Extractor Agent''
        (''Event '' @ [CHR 0x27] @ ''EXTRACTED'' @ [CHR 0x27] @ '' created.'') ''36''
        (snd (mock_llm_entity_extraction ev t w)))"
  by (simp add: extract_from_text_def split_def Let_def)

lemma spec_document_type_code:
  "spec_document_type t =
     (if str_contains (py_lower t) ''invoice'' then ''Invoice''
      else if str_contains (py_lower t) ''contract'' then ''Contract''
      else if str_contains (py_lower t) ''resume'' then ''Resume''
      else ''Unknown'')"
  by (simp add: spec_document_type_def keyword_priority_def str_contains_sublist)

lemma round_half_even_bounds:
  assumes "of_int a \<le> y" and "y \<le> of_int b"
  shows "a \<le> round_half_even y \<and> round_half_even y \<le> b"
proof -
  have fl: "a \<le> \<lfloor>y\<rfloor>" using assms(1) by (simp add: le_floor_iff)
  have fu: "\<lfloor>y\<rfloor> \<le> b" using assms(2) by (simp add: floor_le_iff)
  show ?thesis
  proof (cases "\<lfloor>y\<rfloor> = b")
    case True
    then have "y = of_int b" using assms(2) of_int_floor_le by (metis antisym)
    then show ?thesis using fl by (simp add: round_half_even_def)
  next
    case False
    then have "\<lfloor>y\<rfloor> + 1 \<le> b" using fu by simp
    then show ?thesis using fl by (auto simp: round_half_even_def Let_def)
  qed
qed

lemma py_round2_range:
  assumes "of_int a / 100 \<le> x" and "x \<le> of_int b / 100"
  shows "of_int a / 100 \<le> py_round2 x \<and> py_round2 x \<le> of_int b / 100"
proof -
  have "of_int a \<le> x * 100" "x * 100 \<le> of_int b" using assms by auto
  from round_half_even_bounds[OF this] show ?thesis
    by (simp add: py_round2_def divide_le_cancel of_int_le_iff)
qed

lemma uniform_range:
  assumes "0 \<le> u" "u \<le> 1" "a \<le> b"
  shows "a \<le> uniform a b u \<and> uniform a b u \<le> b"
proof -
  have "0 \<le> (b - a) * u" using assms by simp
  moreover have "(b - a) * u \<le> (b - a) * 1" using assms by (intro mult_left_mono) auto
  ultimately show ?thesis by (simp add: uniform_def)
qed

subsection \<open>Paths and the file system\<close>

lemma strip_prefix_Some: "strip_prefix a p = Some n \<longleftrightarrow> p = a @ n"
  by (induction a p rule: strip_prefix.induct) auto

lemma child_name_Some:
  "child_name d p = Some n \<longleftrightarrow> p = d @ ''/'' @ n \<and> n \<noteq> [] \<and> CHR ''/'' \<notin> set n"
proof (cases "strip_prefix (d @ ''/'') p")
  case None
  then have "p \<noteq> (d @ ''/'') @ n"
    using strip_prefix_Some [of "d @ ''/''" p n] by simp
  with None show ?thesis by (simp add: child_name_def)
next
  case (Some m)
  then have "p = (d @ ''/'') @ m"
    using strip_prefix_Some [of "d @ ''/''" p m] by simp
  with Some show ?thesis by (auto simp: child_name_def)
qed

lemma set_map_filter_iff:
  "y \<in> set (List.map_filter f xs) \<longleftrightarrow> (\<exists>x \<in> set xs. f x = Some y)"
  by (induction xs) (auto split: option.splits)

lemma os_listdir_iff:
  "n \<in> set (os_listdir w d) \<longleftrightarrow>
     (d @ ''/'' @ n) \<in> fst ` set (files w) \<and> n \<noteq> [] \<and> CHR ''/'' \<notin> set n"
proof -
  have "n \<in> set (os_listdir w d) \<longleftrightarrow> (\<exists>x \<in> set (files w). child_name d (fst x) = Some n)"
    by (simp add: os_listdir_def set_map_filter_iff split_def)
  also have "\<dots> \<longleftrightarrow> (\<exists>x \<in> set (files w). fst x = d @ ''/'' @ n \<and> n \<noteq> [] \<and> CHR ''/'' \<notin> set n)"
    unfolding child_name_Some ..
  also have "\<dots> \<longleftrightarrow> (d @ ''/'' @ n) \<in> fst ` set (files w) \<and> n \<noteq> [] \<and> CHR ''/'' \<notin> set n"
    by (simp only: image_iff bex_simps) metis
  finally show ?thesis .
qed

lemma join_docs_name:
  "CHR ''/'' \<notin> set n \<Longrightarrow> os_path_join DOCS_TO_PROCESS_DIR n = DOCS_TO_PROCESS_DIR @ ''/'' @ n"
  by (cases n) (auto simp: os_path_join_def DOCS_TO_PROCESS_DIR_def endswith_def suffix_to_prefix)

lemma docs_processed_differ:
  "CHR ''/'' \<notin> set n \<Longrightarrow> os_path_join DOCS_TO_PROCESS_DIR n \<noteq> os_path_join PROCESSED_DOCS_DIR m"
  by (cases m) (auto simp: join_docs_name os_path_join_def PROCESSED_DOCS_DIR_def
      DOCS_TO_PROCESS_DIR_def endswith_def suffix_to_prefix)

lemma suffix_txt_after_slash:
  assumes "a = [] \<or> last a = CHR ''/''"
  shows "suffix ''.txt'' (a @ f) \<longleftrightarrow> suffix ''.txt'' f"
proof
  assume "suffix ''.txt'' f"
  then show "suffix ''.txt'' (a @ f)" by (rule suffix_appendI)
next
  assume "suffix ''.txt'' (a @ f)"
  then obtain zs where "a @ f = zs @ ''.txt''" by (auto simp: suffix_def)
  then consider us where "a = zs @ us" "us @ f = ''.txt''"
    | us where "a @ us = zs" "f = us @ ''.txt''"
    by (auto simp: append_eq_append_conv2)
  then show "suffix ''.txt'' f"
  proof cases
    case 1
    show ?thesis
    proof (cases "us = []")
      case True
      with 1 show ?thesis by simp
    next
      case False
      with 1 assms have "last us = CHR ''/''" by auto
      with False have "CHR ''/'' \<in> set us" using last_in_set by metis
      then have "CHR ''/'' \<in> set (us @ f)" by simp
      with 1 show ?thesis by simp
    qed
  next
    case 2
    then show ?thesis by (simp add: suffix_def)
  qed
qed

lemma endswith_txt_join:
  "endswith (os_path_join d f) ''.txt'' \<longleftrightarrow> endswith f ''.txt''"
proof -
  have a: "suffix ''.txt'' (d @ ''/'' @ f) \<longleftrightarrow> suffix ''.txt'' f"
    using suffix_txt_after_slash [of "d @ ''/''" f] by simp
  have b: "suffix ''.txt'' (d @ f) \<longleftrightarrow> suffix ''.txt'' f" if "d = [] \<or> endswith d ''/''"
    using that by (intro suffix_txt_after_slash) (auto simp: endswith_def suffix_def)
  show ?thesis
  proof (cases "prefix ''/'' f")
    case True
    then show ?thesis by (simp add: os_path_join_def)
  next
    case False
    show ?thesis
    proof (cases "d = [] \<or> endswith d ''/''")
      case True
      with False b show ?thesis by (simp add: os_path_join_def endswith_def)
    next
      case False
      with \<open>\<not> prefix ''/'' f\<close> a show ?thesis by (simp add: os_path_join_def endswith_def)
    qed
  qed
qed

lemma placeholder_has_invoice:
  "str_contains (py_lower (ocr_placeholder f)) ''invoice''"
proof -
  have "py_lower (ocr_placeholder f) =
          (py_lower (''Simulated OCR content for '' @ f) @ ''. contains keywords: '')
            @ ''invoice'' @ '', contract, or resume.''"
    by (simp add: ocr_placeholder_def py_lower_def lower_char_def is_upper_char_def)
  then show ?thesis
    unfolding str_contains_sublist by (metis sublist_appendI)
qed

lemma placeholder_has_invoice_raw:
  "str_contains (ocr_placeholder f) ''invoice''"
proof -
  have "ocr_placeholder f =
          (''Simulated OCR content for '' @ f @ ''. Contains keywords: '')
            @ ''invoice'' @ '', contract, or resume.''"
    by (simp add: ocr_placeholder_def)
  then show ?thesis
    unfolding str_contains_sublist by (metis sublist_appendI)
qed

lemma map_of_filter_key:
  "map_of (filter (\<lambda>(k, v). P k) xs) k = (if P k then map_of xs k else None)"
  by (induction xs) auto

lemma os_rename_console:
  "os_rename w src dst = Inr w' \<Longrightarrow> console w' = console w"
  by (auto simp: os_rename_def split: option.splits)

lemma os_rename_entries:
  assumes "os_rename w src dst = Inr w'"
  shows "\<exists>nd. entry_at w src = Some nd \<and> rename_error nd = None
           \<and> entry_at w' = (\<lambda>p. if p = dst then Some nd else if p = src then None
                                  else entry_at w p)"
  using assms
  by (auto simp: os_rename_def entry_at_def map_of_filter_key map_add_def fun_eq_iff
      split: option.splits)

lemma move_processed_file_agents:
  "agents_since w (move_processed_file e w) = [''Orchestrator'']"
  by (auto simp: move_processed_file_def Let_def agents_since_def os_rename_console
      split: sum.splits)

subsection \<open>The stages\<close>

lemma ExtractorAgent_run_failed:
  assumes "endswith (original_path e) ''.txt''" and "open_read w (original_path e) = Inl msg"
  shows "ExtractorAgent_run ev e w =
           (e\<lparr>status := ''EXTRACTION_FAILED'', error_message := Some msg\<rparr>,
            print_agent_step ''Extractor Agent'' (''An error occurred: '' @ msg) ''31''
              (print_agent_step ''Extractor Agent''
                 (''Received event for '' @ [CHR 0x27] @ filename e @ [CHR 0x27]) ''36'' w))"
  using assms by (simp add: ExtractorAgent_run_def Let_def)

lemma ExtractorAgent_run_ok:
  assumes "\<not> (endswith (original_path e) ''.txt'' \<and> isl (open_read w (original_path e)))"
  shows "\<exists>ents w'. ExtractorAgent_run ev e w =
           (e\<lparr>status := ''EXTRACTED'', extracted_text := Some (resolved_text w e),
              extracted_entities := Some ents\<rparr>, w')
         \<and> files w' = files w
         \<and> agents_since w w' = [''Extractor Agent'', ''Extractor Agent'', ''LLM Service'',
              ''LLM Service'', ''Extractor Agent'']"
proof (cases "endswith (original_path e) ''.txt''")
  case True
  with assms obtain t where t: "open_read w (original_path e) = Inr t"
    by (cases "open_read w (original_path e)") auto
  obtain m where "console (snd (mock_llm_entity_extraction ev t
        (print_agent_step ''Extractor Agent'' ''Text content successfully read from file.'' ''36''
          (print_agent_step ''Extractor Agent''
             (''Received event for '' @ [CHR 0x27] @ filename e @ [CHR 0x27]) ''36'' w)))) =
     console (print_agent_step ''Extractor Agent'' ''Text content successfully read from file.'' ''36''
          (print_agent_step ''Extractor Agent''
             (''Received event for '' @ [CHR 0x27] @ filename e @ [CHR 0x27]) ''36'' w))
      @ [(''LLM Service'', ''Analyzing text for entities...'', ''35''), (''LLM Service'', m, ''35'')]"
    using mock_llm_console by blast
  with True t show ?thesis
    by (auto simp: ExtractorAgent_run_def Let_def extract_from_text_eq resolved_text_def
        agents_since_def)
next
  case False
  obtain m where "console (snd (mock_llm_entity_extraction ev (ocr_placeholder (filename e))
        (print_agent_step ''Extractor Agent'' ''Simulating OCR for non-TXT file.'' ''36''
          (print_agent_step ''Extractor Agent''
             (''Received event for '' @ [CHR 0x27] @ filename e @ [CHR 0x27]) ''36'' w)))) =
     console (print_agent_step ''Extractor Agent'' ''Simulating OCR for non-TXT file.'' ''36''
          (print_agent_step ''Extractor Agent''
             (''Received event for '' @ [CHR 0x27] @ filename e @ [CHR 0x27]) ''36'' w))
      @ [(''LLM Service'', ''Analyzing text for entities...'', ''35''), (''LLM Service'', m, ''35'')]"
    using mock_llm_console by blast
  with False show ?thesis
    by (auto simp: ExtractorAgent_run_def Let_def extract_from_text_eq resolved_text_def
        agents_since_def)
qed

lemma ClassifierAgent_run_eq:
  "\<exists>x w'. ClassifierAgent_run ev e w =
      (e\<lparr>status := ''CLASSIFIED'',
         classification := Some \<lparr>document_type = spec_document_type (text_of e),
                                 confidence = py_round2 x\<rparr>\<rparr>, w')
    \<and> x = uniform (fst (spec_confidence_range (spec_document_type (text_of e))))
                  (snd (spec_confidence_range (spec_document_type (text_of e))))
                  (random_confidence ev)
    \<and> files w' = files w
    \<and> agents_since w w' = [''Classifier Agent'', ''Classifier Agent'']"
  by (simp add: ClassifierAgent_run_def Let_def spec_document_type_code text_of_def
      spec_confidence_range_def agents_since_def)

lemma RouterAgent_run_ok:
  assumes "routing_action e (classified_type e) = Inr a"
  shows "\<exists>w'. RouterAgent_run ev e w =
      Inr (e\<lparr>status := ''ROUTED'',
             routing_info := Some \<lparr>action_taken = a, routed_at = now_routed ev\<rparr>\<rparr>, w')
    \<and> files w' = files w
    \<and> agents_since w w' = [''Router Agent'', ''Router Agent'', ''Router Agent'']"
  using assms
  by (simp add: RouterAgent_run_def Let_def classified_type_def agents_since_def)

lemma RouterAgent_run_error:
  assumes "routing_action e (classified_type e) = Inl err"
  shows "RouterAgent_run ev e w = Inl err"
  using assms by (simp add: RouterAgent_run_def Let_def classified_type_def)

lemma routing_action_entities:
  "extracted_entities e \<noteq> None \<Longrightarrow> \<exists>a. routing_action e ty = Inr a"
  by (auto simp: routing_action_def)

lemma run_stages_failed:
  assumes "endswith (original_path e) ''.txt''" and "open_read w (original_path e) = Inl msg"
  shows "run_stages ev e w = Inr (ExtractorAgent_run ev e w)"
  using assms by (simp add: ExtractorAgent_run_failed run_stages_def)

lemma run_stages_unfold:
  "run_stages ev e w =
     (if \<not> str_contains (status (fst (ExtractorAgent_run ev e w))) ''FAILED''
      then RouterAgent_run ev
             (fst (ClassifierAgent_run ev (fst (ExtractorAgent_run ev e w))
                     (snd (ExtractorAgent_run ev e w))))
             (snd (ClassifierAgent_run ev (fst (ExtractorAgent_run ev e w))
                     (snd (ExtractorAgent_run ev e w))))
      else Inr (ExtractorAgent_run ev e w))"
  by (simp add: run_stages_def split_def Let_def)

lemma run_stages_ok:
  assumes "\<not> (endswith (original_path e) ''.txt'' \<and> isl (open_read w (original_path e)))"
  shows "\<exists>e1 e2 e3 ents x a w1 w2 w3.
           e1 = e\<lparr>status := ''EXTRACTED'', extracted_text := Some (resolved_text w e),
                   extracted_entities := Some ents\<rparr>
         \<and> e2 = e1\<lparr>status := ''CLASSIFIED'',
                    classification :=
                      Some \<lparr>document_type = spec_document_type (resolved_text w e),
                            confidence = py_round2 x\<rparr>\<rparr>
         \<and> e3 = e2\<lparr>status := ''ROUTED'',
                    routing_info := Some \<lparr>action_taken = a, routed_at = now_routed ev\<rparr>\<rparr>
         \<and> ExtractorAgent_run ev e w = (e1, w1)
         \<and> ClassifierAgent_run ev e1 w1 = (e2, w2)
         \<and> RouterAgent_run ev e2 w2 = Inr (e3, w3)
         \<and> run_stages ev e w = Inr (e3, w3)
         \<and> routing_action e2 (classified_type e2) = Inr a
         \<and> files w1 = files w \<and> files w2 = files w \<and> files w3 = files w
         \<and> agents_since w w1 = [''Extractor Agent'', ''Extractor Agent'', ''LLM Service'',
              ''LLM Service'', ''Extractor Agent'']
         \<and> agents_since w1 w2 = [''Classifier Agent'', ''Classifier Agent'']
         \<and> agents_since w2 w3 = [''Router Agent'', ''Router Agent'', ''Router Agent'']"
proof -
  let ?t = "resolved_text w e"
  from ExtractorAgent_run_ok [OF assms, of ev] obtain ents w1 where
    ex: "ExtractorAgent_run ev e w =
           (e\<lparr>status := ''EXTRACTED'', extracted_text := Some ?t,
              extracted_entities := Some ents\<rparr>, w1)"
    and f1: "files w1 = files w"
    and a1: "agents_since w w1 = [''Extractor Agent'', ''Extractor Agent'', ''LLM Service'',
              ''LLM Service'', ''Extractor Agent'']"
    by blast
  let ?e1 = "e\<lparr>status := ''EXTRACTED'', extracted_text := Some ?t,
               extracted_entities := Some ents\<rparr>"
  have t1: "text_of ?e1 = ?t" by (simp add: text_of_def)
  from ClassifierAgent_run_eq [of ev ?e1 w1] obtain x w2 where
    cl: "ClassifierAgent_run ev ?e1 w1 =
           (?e1\<lparr>status := ''CLASSIFIED'',
              classification := Some \<lparr>document_type = spec_document_type ?t,
                                      confidence = py_round2 x\<rparr>\<rparr>, w2)"
    and f2: "files w2 = files w1"
    and a2: "agents_since w1 w2 = [''Classifier Agent'', ''Classifier Agent'']"
    unfolding t1 by blast
  let ?e2 = "?e1\<lparr>status := ''CLASSIFIED'',
              classification := Some \<lparr>document_type = spec_document_type ?t,
                                      confidence = py_round2 x\<rparr>\<rparr>"
  have "extracted_entities ?e2 \<noteq> None" by simp
  from routing_action_entities [OF this] obtain a where
    ra: "routing_action ?e2 (classified_type ?e2) = Inr a" by blast
  from RouterAgent_run_ok [OF ra, of ev w2] obtain w3 where
    ro: "RouterAgent_run ev ?e2 w2 =
           Inr (?e2\<lparr>status := ''ROUTED'',
                  routing_info := Some \<lparr>action_taken = a, routed_at = now_routed ev\<rparr>\<rparr>, w3)"
    and f3: "files w3 = files w2"
    and a3: "agents_since w2 w3 = [''Router Agent'', ''Router Agent'', ''Router Agent'']"
    by blast
  have rs: "run_stages ev e w =
          Inr (?e2\<lparr>status := ''ROUTED'',
                  routing_info := Some \<lparr>action_taken = a, routed_at = now_routed ev\<rparr>\<rparr>, w3)"
  proof -
    have nf: "(\<not> str_contains (status ?e1) ''FAILED'') = True" by simp
    show ?thesis
      by (simp only: run_stages_unfold ex fst_conv snd_conv nf if_True cl ro)
  qed
  have f2': "files w2 = files w" and f3': "files w3 = files w"
    using f1 f2 f3 by simp_all
  show ?thesis
    by (intro exI conjI) (rule refl ex cl ro rs ra f1 f2' f3' a1 a2 a3)+
qed

lemma spec_confidence_range_int:
  "\<exists>a b::int. spec_confidence_range ty = (of_int a / 100, of_int b / 100) \<and> a \<le> b"
proof -
  have "spec_confidence_range ty = (of_int 90 / 100, of_int 99 / 100)
      \<or> spec_confidence_range ty = (of_int 85 / 100, of_int 95 / 100)
      \<or> spec_confidence_range ty = (of_int 88 / 100, of_int 98 / 100)
      \<or> spec_confidence_range ty = (of_int 40 / 100, of_int 60 / 100)"
    by (simp add: spec_confidence_range_def)
  then show ?thesis
    by (elim disjE) (rule exI [of _ 90], rule exI [of _ 99], simp,
        rule exI [of _ 85], rule exI [of _ 95], simp,
        rule exI [of _ 88], rule exI [of _ 98], simp,
        rule exI [of _ 40], rule exI [of _ 60], simp)
qed

lemma IngestorAgent_run_Some:
  assumes "IngestorAgent_run ev DOCS_TO_PROCESS_DIR w = (Some e0, w1)"
  shows "status e0 = ''INGESTED''"
    and "filename e0 \<in> set (os_listdir w DOCS_TO_PROCESS_DIR)"
    and "CHR ''/'' \<notin> set (filename e0)"
    and "original_path e0 = os_path_join DOCS_TO_PROCESS_DIR (filename e0)"
    and "extracted_text e0 = None" and "extracted_entities e0 = None"
    and "classification e0 = None" and "routing_info e0 = None" and "error_message e0 = None"
    and "files w1 = files w"
    and "claimable w DOCS_TO_PROCESS_DIR (filename e0)"
    and "\<exists>pre post. os_listdir w DOCS_TO_PROCESS_DIR = pre @ filename e0 # post
           \<and> (\<forall>m \<in> set pre. \<not> claimable w DOCS_TO_PROCESS_DIR m)"
proof -
  from assms have i: "ingest_files ev DOCS_TO_PROCESS_DIR (os_listdir w DOCS_TO_PROCESS_DIR) w
                        = (Some e0, w1)"
    by (simp add: IngestorAgent_run_def)
  from ingest_files_Some [OF i] obtain pre n post sz where
    l: "os_listdir w DOCS_TO_PROCESS_DIR = pre @ n # post"
    and p: "\<forall>m \<in> set pre. \<not> claimable w DOCS_TO_PROCESS_DIR m"
    and c: "claimable w DOCS_TO_PROCESS_DIR n"
    and e: "e0 = \<lparr>status = ''INGESTED'', filename = n,
                  original_path = os_path_join DOCS_TO_PROCESS_DIR n,
                  metadata = \<lparr>size_bytes = sz, ingestion_time = now_ingestion ev\<rparr>,
                  extracted_text = None, extracted_entities = None, classification = None,
                  routing_info = None, error_message = None\<rparr>"
    by blast
  have n: "filename e0 = n" by (simp add: e)
  show "status e0 = ''INGESTED''" by (simp add: e)
  show mem: "filename e0 \<in> set (os_listdir w DOCS_TO_PROCESS_DIR)" by (simp add: n l)
  from mem show "CHR ''/'' \<notin> set (filename e0)" by (simp add: os_listdir_iff)
  show "original_path e0 = os_path_join DOCS_TO_PROCESS_DIR (filename e0)" by (simp add: e)
  show "extracted_text e0 = None" "extracted_entities e0 = None" "classification e0 = None"
    "routing_info e0 = None" "error_message e0 = None" by (simp_all add: e)
  from ingest_files_files [of ev DOCS_TO_PROCESS_DIR "os_listdir w DOCS_TO_PROCESS_DIR" w]
  show "files w1 = files w" by (simp add: i)
  show "claimable w DOCS_TO_PROCESS_DIR (filename e0)" using c n by simp
  show "\<exists>pre post. os_listdir w DOCS_TO_PROCESS_DIR = pre @ filename e0 # post
           \<and> (\<forall>m \<in> set pre. \<not> claimable w DOCS_TO_PROCESS_DIR m)"
    using l p n by blast
qed

lemma spec_document_type_placeholder:
  "spec_document_type (ocr_placeholder f) = ''Invoice''"
  by (simp add: spec_document_type_code placeholder_has_invoice)

lemma entry_at_print [simp]: "entry_at (print_agent_step a m c w) p = entry_at w p"
  by (simp add: entry_at_def)

lemma run_stages_total:
  "\<exists>e w'. run_stages ev e0 w = Inr (e, w')
        \<and> filename e = filename e0 \<and> original_path e = original_path e0
        \<and> files w' = files w
        \<and> (status e = ''ROUTED'' \<or> status e = ''EXTRACTION_FAILED'')"
proof (cases "endswith (original_path e0) ''.txt'' \<and> isl (open_read w (original_path e0))")
  case True
  then obtain msg where en: "endswith (original_path e0) ''.txt''"
    and op: "open_read w (original_path e0) = Inl msg"
    by (cases "open_read w (original_path e0)") auto
  show ?thesis
    unfolding run_stages_failed [OF en op] ExtractorAgent_run_failed [OF en op] by simp
next
  case False
  from run_stages_ok [OF this, of ev] obtain e1 e2 e3 ents x a w3 where
    "e1 = e0\<lparr>status := ''EXTRACTED'', extracted_text := Some (resolved_text w e0),
                   extracted_entities := Some ents\<rparr>"
    "e2 = e1\<lparr>status := ''CLASSIFIED'',
                    classification :=
                      Some \<lparr>document_type = spec_document_type (resolved_text w e0),
                            confidence = py_round2 x\<rparr>\<rparr>"
    "e3 = e2\<lparr>status := ''ROUTED'',
                    routing_info := Some \<lparr>action_taken = a, routed_at = now_routed ev\<rparr>\<rparr>"
    "run_stages ev e0 w = Inr (e3, w3)" "files w3 = files w"
    by blast
  then show ?thesis by simp
qed

lemma move_processed_file_entries:
  assumes "entry_at w (original_path e) = Some nd"
  shows "if rename_error nd = None
         then entry_at (move_processed_file e w) =
                (\<lambda>p. if p = os_path_join PROCESSED_DOCS_DIR (filename e) then Some nd
                     else if p = original_path e then None else entry_at w p)
         else files (move_processed_file e w) = files w"
proof (cases "rename_error nd")
  case None
  with assms obtain w1 where r: "os_rename w (original_path e)
      (os_path_join PROCESSED_DOCS_DIR (filename e)) = Inr w1"
    by (simp add: os_rename_def entry_at_def)
  from os_rename_entries [OF r] assms have
    "entry_at w1 = (\<lambda>p. if p = os_path_join PROCESSED_DOCS_DIR (filename e) then Some nd
                     else if p = original_path e then None else entry_at w p)"
    by auto
  with None r show ?thesis
    by (simp add: move_processed_file_def Let_def fun_eq_iff)
next
  case (Some m)
  with assms have "os_rename w (original_path e)
      (os_path_join PROCESSED_DOCS_DIR (filename e)) = Inl m"
    by (simp add: os_rename_def entry_at_def)
  with Some show ?thesis by (simp add: move_processed_file_def Let_def)
qed

lemma claimable_entry:
  "claimable w d n \<Longrightarrow> \<exists>nd. entry_at w (os_path_join d n) = Some nd"
  by (auto simp: claimable_def os_path_isfile_def entry_at_def split: option.splits)

lemma routed_action_eq:
  "routed_action (RouterAgent_run ev e w) =
     (case routing_action e (classified_type e) of Inl err \<Rightarrow> None | Inr a \<Rightarrow> Some a)"
proof (cases "routing_action e (classified_type e)")
  case (Inl err)
  then show ?thesis by (simp add: RouterAgent_run_error routed_action_def)
next
  case (Inr a)
  from RouterAgent_run_ok [OF Inr, of ev w] Inr show ?thesis
    by (auto simp: routed_action_def)
qed




subsection \<open>Evaluating the model on an example\<close>

lemma str_nat_digit [simp]: "n < 10 \<Longrightarrow> str_nat n = [''0123456789'' ! n]"
  by (simp add: str_nat.simps)

lemma str_nat_more [simp]:
  "\<not> n < 10 \<Longrightarrow> str_nat n = str_nat (n div 10) @ [''0123456789'' ! (n mod 10)]"
  by (subst str_nat.simps) simp

lemmas model_defs =
  main_cycle_def IngestorAgent_run_def os_listdir_def child_name_def os_path_join_def
  os_path_isfile_def os_path_getsize_def open_read_def os_rename_def endswith_def
  suffix_to_prefix run_stages_def ExtractorAgent_run_def extract_from_text_def
  mock_llm_entity_extraction_def ClassifierAgent_run_def RouterAgent_run_def
  routing_action_def move_processed_file_def print_agent_step_def py_lower_def
  lower_char_def is_upper_char_def dict_update_def repr_entities_def repr_str_def
  repr_char_def hex2_def str_int_def format_2f_def py_round2_def round_half_even_def
  uniform_def ocr_placeholder_def no_such_file_def no_structure_error_def
  DOCS_TO_PROCESS_DIR_def PROCESSED_DOCS_DIR_def Let_def List.map_filter_def
  final_event_def final_world_def final_entry_def routed_action_def entry_at_def
  classified_type_def text_of_def

lemmas example_defs =
  example_env_def example_strftime_def empty_world_def unreadable_node_def
  world_unreadable_def invoice_node_def pdf_node_def world_two_files_def world_pdf_def
  ingested_event_def classified_event_def
  entities_a_def entities_b_def after_ingest_def after_extract_def failed_event_def

section \<open>The entity extraction service on a text without keyword\<close>

text \<open>
  C3, as the specification states it: for a text in which none of the keywords occurs,
  the service returns a mapping whose only key is \<open>error\<close>. The code does not: on the text
  \<open>Lorem ipsum\<close>, which has none of the keywords, the mapping has two keys, and the first
  is \<open>source_text_length\<close>, which the service sets before it looks at the keywords.
\<close>

theorem provider_no_keyword_counterexample:
  "\<not> str_contains (py_lower ''Lorem ipsum'') ''invoice''
   \<and> \<not> str_contains (py_lower ''Lorem ipsum'') ''contract''
   \<and> \<not> str_contains (py_lower ''Lorem ipsum'') ''resume''
   \<and> map fst (fst (mock_llm_entity_extraction example_env ''Lorem ipsum'' empty_world))
       = [''source_text_length'', ''error'']
   \<and> set (map fst (fst (mock_llm_entity_extraction example_env ''Lorem ipsum'' empty_world)))
       \<noteq> {''error''}"
  by (simp add: mock_llm_entity_extraction_def Let_def py_lower_def lower_char_def
      is_upper_char_def)

text \<open>
  C3, amended: for every text in which none of the keywords \<open>invoice\<close>, \<open>contract\<close>,
  \<open>resume\<close> occurs after lowering, the service returns a mapping with exactly two keys:
  \<open>source_text_length\<close>, the length of the text, and \<open>error\<close>, the message that the
  structure of the document could not be determined.
\<close>

theorem provider_no_keyword_entities:
  assumes "\<not> str_contains (py_lower text) ''invoice''"
    and "\<not> str_contains (py_lower text) ''contract''"
    and "\<not> str_contains (py_lower text) ''resume''"
  shows "fst (mock_llm_entity_extraction ev text w) =
           [(''source_text_length'', EInt (int (length text))),
            (''error'', EStr no_structure_error)]"
  using assms by (simp add: mock_llm_entity_extraction_def Let_def)

text \<open>The amended C3 at the text \<open>Lorem ipsum\<close>, of length 11.\<close>

theorem provider_no_keyword_witness:
  "\<not> str_contains (py_lower ''Lorem ipsum'') ''invoice''
   \<and> \<not> str_contains (py_lower ''Lorem ipsum'') ''contract''
   \<and> \<not> str_contains (py_lower ''Lorem ipsum'') ''resume''
   \<and> fst (mock_llm_entity_extraction example_env ''Lorem ipsum'' empty_world) =
        [(''source_text_length'', EInt 11), (''error'', EStr no_structure_error)]"
proof -
  have h1: "\<not> str_contains (py_lower ''Lorem ipsum'') ''invoice''"
    and h2: "\<not> str_contains (py_lower ''Lorem ipsum'') ''contract''"
    and h3: "\<not> str_contains (py_lower ''Lorem ipsum'') ''resume''"
    by (simp_all add: py_lower_def lower_char_def is_upper_char_def)
  from provider_no_keyword_entities [OF h1 h2 h3, of example_env empty_world] h1 h2 h3
  show ?thesis by simp
qed

section \<open>The Extractor on a file that cannot be read\<close>

text \<open>
  C4: when reading the source of an event raises an exception, which happens only for a
  path that ends in \<open>.txt\<close>, since no other file is opened, the Extractor returns the event
  with status \<open>EXTRACTION_FAILED\<close> and with the text of the exception as \<open>error_message\<close>.
  It changes nothing else in the event and nothing in the file system, the only lines
  printed are its own two, so the entity extraction service is not called, and the result
  is a value: no exception leaves the Extractor.
\<close>

theorem extractor_read_failure:
  assumes "endswith (original_path e) ''.txt''"
    and "open_read w (original_path e) = Inl msg"
  shows "\<exists>w'. ExtractorAgent_run ev e w =
              (e\<lparr>status := ''EXTRACTION_FAILED'', error_message := Some msg\<rparr>, w')
           \<and> files w' = files w
           \<and> agents_since w w' = [''Extractor Agent'', ''Extractor Agent'']
           \<and> ''LLM Service'' \<notin> set (agents_since w w')"
  using assms by (simp add: ExtractorAgent_run_def Let_def agents_since_def)

text \<open>C4 at a text file that the process may not open.\<close>

theorem extractor_read_failure_witness:
  "endswith (original_path (ingested_event ''a.txt'')) ''.txt''
   \<and> open_read world_unreadable (original_path (ingested_event ''a.txt''))
        = Inl ''[Errno 13] Permission denied''
   \<and> fst (ExtractorAgent_run example_env (ingested_event ''a.txt'') world_unreadable)
        = (ingested_event ''a.txt'')
            \<lparr>status := ''EXTRACTION_FAILED'',
             error_message := Some ''[Errno 13] Permission denied''\<rparr>
   \<and> ''LLM Service'' \<notin> set (agents_since world_unreadable
          (snd (ExtractorAgent_run example_env (ingested_event ''a.txt'') world_unreadable)))"
proof -
  have h1: "endswith (original_path (ingested_event ''a.txt'')) ''.txt''"
    by (simp add: ingested_event_def os_path_join_def DOCS_TO_PROCESS_DIR_def endswith_def
        suffix_to_prefix)
  have h2: "open_read world_unreadable (original_path (ingested_event ''a.txt''))
              = Inl ''[Errno 13] Permission denied''"
    by (simp add: ingested_event_def os_path_join_def DOCS_TO_PROCESS_DIR_def endswith_def
        suffix_to_prefix open_read_def world_unreadable_def unreadable_node_def)
  from extractor_read_failure [OF h1 h2, of example_env] h1 h2
  show ?thesis by auto
qed

section \<open>The Classifier on an event without text\<close>

text \<open>
  C10: when the event has no \<open>extracted_text\<close>, the Classifier takes the empty text: it
  returns the event with status \<open>CLASSIFIED\<close> and the document type \<open>Unknown\<close>, with a
  confidence from the range of that type, and it raises nothing.
\<close>

theorem classifier_missing_text:
  assumes "extracted_text e = None"
  shows "\<exists>w'. ClassifierAgent_run ev e w =
           (e\<lparr>status := ''CLASSIFIED'',
              classification := Some \<lparr>document_type = ''Unknown'',
                 confidence = py_round2 (uniform 0.40 0.60 (random_confidence ev))\<rparr>\<rparr>, w')"
  using assms by (simp add: ClassifierAgent_run_def Let_def py_lower_def)

text \<open>C10 at an event as the Ingestor makes it.\<close>

theorem classifier_missing_text_witness:
  "extracted_text (ingested_event ''a.txt'') = None
   \<and> fst (ClassifierAgent_run example_env (ingested_event ''a.txt'') empty_world) =
       (ingested_event ''a.txt'')
         \<lparr>status := ''CLASSIFIED'',
          classification := Some \<lparr>document_type = ''Unknown'', confidence = 0.45\<rparr>\<rparr>"
proof -
  have h: "extracted_text (ingested_event ''a.txt'') = None"
    by (simp add: ingested_event_def)
  have r: "py_round2 (uniform 0.40 0.60 (random_confidence example_env)) = 0.45"
    by (simp add: py_round2_def uniform_def example_env_def round_half_even_def)
  from classifier_missing_text [OF h, of example_env empty_world] h r
  show ?thesis by auto
qed

section \<open>The Classifier\<close>

text \<open>
  C5: the Classifier cannot fail. For every event, and every value between 0 and 1 that
  the random generator hands it, it returns the event with status \<open>CLASSIFIED\<close> and a
  classification. The document type is the one the specification words: the type of the
  first of the keywords \<open>invoice\<close>, \<open>contract\<close>, \<open>resume\<close> that occurs in the lowered
  text, and \<open>Unknown\<close> when none occurs. The confidence is a value of the range of that
  type, rounded to two decimals: it is a whole number of hundredths, and it lies in the
  range itself.
\<close>

theorem classifier_total:
  assumes "0 \<le> random_confidence ev" and "random_confidence ev \<le> 1"
  shows "\<exists>c w'. ClassifierAgent_run ev e w =
                  (e\<lparr>status := ''CLASSIFIED'', classification := Some c\<rparr>, w')
           \<and> document_type c = spec_document_type (text_of e)
           \<and> (\<exists>x. fst (spec_confidence_range (document_type c)) \<le> x
                  \<and> x \<le> snd (spec_confidence_range (document_type c))
                  \<and> confidence c = py_round2 x)
           \<and> fst (spec_confidence_range (document_type c)) \<le> confidence c
           \<and> confidence c \<le> snd (spec_confidence_range (document_type c))
           \<and> (\<exists>k::int. confidence c = of_int k / 100)"
proof -
  let ?ty = "spec_document_type (text_of e)"
  from ClassifierAgent_run_eq [of ev e w] obtain x w' where
    run: "ClassifierAgent_run ev e w =
            (e\<lparr>status := ''CLASSIFIED'',
               classification := Some \<lparr>document_type = ?ty, confidence = py_round2 x\<rparr>\<rparr>, w')"
    and x: "x = uniform (fst (spec_confidence_range ?ty)) (snd (spec_confidence_range ?ty))
                  (random_confidence ev)"
    by blast
  obtain a b :: int where
    r: "spec_confidence_range ?ty = (of_int a / 100, of_int b / 100)" and ab: "a \<le> b"
    using spec_confidence_range_int by blast
  have "(of_int a / 100 :: real) \<le> of_int b / 100" using ab by simp
  from uniform_range [OF assms this]
  have xr: "of_int a / 100 \<le> x" "x \<le> of_int b / 100" by (simp_all add: x r)
  from py_round2_range [OF xr]
  have pr: "of_int a / 100 \<le> py_round2 x" "py_round2 x \<le> of_int b / 100" by simp_all
  let ?c = "\<lparr>document_type = ?ty, confidence = py_round2 x\<rparr>"
  have 1: "document_type ?c = ?ty" by simp
  have 2: "\<exists>y. fst (spec_confidence_range (document_type ?c)) \<le> y
              \<and> y \<le> snd (spec_confidence_range (document_type ?c))
              \<and> confidence ?c = py_round2 y"
    using xr by (intro exI [of _ x]) (simp add: r)
  have 3: "fst (spec_confidence_range (document_type ?c)) \<le> confidence ?c"
    and 4: "confidence ?c \<le> snd (spec_confidence_range (document_type ?c))"
    using pr by (simp_all add: r)
  have 5: "\<exists>k::int. confidence ?c = of_int k / 100"
    by (simp add: py_round2_def)
  from run 1 2 3 4 5 show ?thesis by blast
qed

text \<open>C5 at the text \<open>Invoice #1234, due next month\<close>, with the random value one quarter.\<close>

theorem classifier_total_witness:
  "0 \<le> random_confidence example_env \<and> random_confidence example_env \<le> 1
   \<and> status (fst (ClassifierAgent_run example_env
         ((ingested_event ''a.txt'')
            \<lparr>status := ''EXTRACTED'',
             extracted_text := Some ''Invoice #1234, due next month''\<rparr>) empty_world))
       = ''CLASSIFIED''
   \<and> classification (fst (ClassifierAgent_run example_env
         ((ingested_event ''a.txt'')
            \<lparr>status := ''EXTRACTED'',
             extracted_text := Some ''Invoice #1234, due next month''\<rparr>) empty_world))
       = Some \<lparr>document_type = ''Invoice'', confidence = 0.92\<rparr>"
proof -
  let ?e = "(ingested_event ''a.txt'')
              \<lparr>status := ''EXTRACTED'',
               extracted_text := Some ''Invoice #1234, due next month''\<rparr>"
  have h1: "0 \<le> random_confidence example_env" and h2: "random_confidence example_env \<le> 1"
    by (simp_all add: example_env_def)
  have t: "spec_document_type (text_of ?e) = ''Invoice''"
    by (simp add: text_of_def spec_document_type_code py_lower_def lower_char_def
        is_upper_char_def)
  have r: "\<And>x. 0.90 \<le> x \<Longrightarrow> x \<le> 0.99 \<Longrightarrow>
            classification (fst (ClassifierAgent_run example_env ?e empty_world))
            = Some \<lparr>document_type = ''Invoice'', confidence = 0.92\<rparr>"
   by (simp add: ClassifierAgent_run_def Let_def py_lower_def lower_char_def is_upper_char_def
        py_round2_def uniform_def example_env_def round_half_even_def)
  from classifier_total [OF h1 h2, of ?e empty_world]
  obtain c w' where
    run: "ClassifierAgent_run example_env ?e empty_world =
            (?e\<lparr>status := ''CLASSIFIED'', classification := Some c\<rparr>, w')"
    and ty: "document_type c = spec_document_type (text_of ?e)"
    and lo: "fst (spec_confidence_range (document_type c)) \<le> confidence c"
    and hi: "confidence c \<le> snd (spec_confidence_range (document_type c))"
    by blast
  from ty t lo hi have "0.90 \<le> confidence c" "confidence c \<le> 0.99"
    by (simp_all add: spec_confidence_range_def)
  from r [OF this] run h1 h2 show ?thesis by simp
qed

section \<open>A file that is not a text file\<close>

text \<open>
  C9: for every file the Ingestor claims whose name does not end in \<open>.txt\<close>, the
  Extractor takes the placeholder text, which has the keyword \<open>invoice\<close> in it, whatever
  the name of the file; the Classifier then gives the document type \<open>Invoice\<close>, and the
  event leaves the stages routed as an invoice.
\<close>

theorem non_txt_is_invoice:
  assumes "IngestorAgent_run ev DOCS_TO_PROCESS_DIR w = (Some e0, w1)"
    and "\<not> endswith (filename e0) ''.txt''"
  shows "\<exists>e1 w2 e2 w3 e3 w4.
           ExtractorAgent_run ev e0 w1 = (e1, w2)
         \<and> status e1 = ''EXTRACTED''
         \<and> extracted_text e1 = Some (ocr_placeholder (filename e0))
         \<and> str_contains (ocr_placeholder (filename e0)) ''invoice''
         \<and> ClassifierAgent_run ev e1 w2 = (e2, w3)
         \<and> classified_type e2 = ''Invoice''
         \<and> run_stages ev e0 w1 = Inr (e3, w4)
         \<and> status e3 = ''ROUTED''
         \<and> classified_type e3 = ''Invoice''"
proof -
  from IngestorAgent_run_Some(4) [OF assms(1)] assms(2)
  have nt: "\<not> endswith (original_path e0) ''.txt''" by (simp add: endswith_txt_join)
  then have rt: "resolved_text w1 e0 = ocr_placeholder (filename e0)"
    by (simp add: resolved_text_def)
  from nt have "\<not> (endswith (original_path e0) ''.txt'' \<and> isl (open_read w1 (original_path e0)))"
    by simp
  from run_stages_ok [OF this, of ev] obtain e1 e2 e3 ents x a w2 w3 w4 where
    e1: "e1 = e0\<lparr>status := ''EXTRACTED'', extracted_text := Some (resolved_text w1 e0),
                   extracted_entities := Some ents\<rparr>"
    and e2: "e2 = e1\<lparr>status := ''CLASSIFIED'',
                    classification :=
                      Some \<lparr>document_type = spec_document_type (resolved_text w1 e0),
                            confidence = py_round2 x\<rparr>\<rparr>"
    and e3: "e3 = e2\<lparr>status := ''ROUTED'',
                    routing_info := Some \<lparr>action_taken = a, routed_at = now_routed ev\<rparr>\<rparr>"
    and ex: "ExtractorAgent_run ev e0 w1 = (e1, w2)"
    and cl: "ClassifierAgent_run ev e1 w2 = (e2, w3)"
    and rs: "run_stages ev e0 w1 = Inr (e3, w4)"
    by blast
  have "status e1 = ''EXTRACTED''" by (simp add: e1)
  moreover have "extracted_text e1 = Some (ocr_placeholder (filename e0))"
    by (simp add: e1 rt)
  moreover have "classified_type e2 = ''Invoice''"
    by (simp add: e2 classified_type_def rt spec_document_type_placeholder)
  moreover have "status e3 = ''ROUTED''" by (simp add: e3)
  moreover have "classified_type e3 = ''Invoice''"
    by (simp add: e3 e2 classified_type_def rt spec_document_type_placeholder)
  ultimately show ?thesis
    using ex cl rs placeholder_has_invoice_raw [of "filename e0"] by blast
qed

text \<open>C9 at a PDF file in the intake directory.\<close>

theorem non_txt_is_invoice_witness:
  "IngestorAgent_run example_env DOCS_TO_PROCESS_DIR world_pdf
     = (Some (ingested_event ''b.pdf''), after_ingest world_pdf)
   \<and> \<not> endswith (filename (ingested_event ''b.pdf'')) ''.txt''
   \<and> map_option classified_type (final_event (main_cycle example_env world_pdf))
       = Some ''Invoice''"
proof -
  have "fst (IngestorAgent_run example_env DOCS_TO_PROCESS_DIR world_pdf)
          = Some (ingested_event ''b.pdf'')"
    by (simp add: model_defs example_defs)
  then have h1: "IngestorAgent_run example_env DOCS_TO_PROCESS_DIR world_pdf
                   = (Some (ingested_event ''b.pdf''), after_ingest world_pdf)"
    by (simp add: after_ingest_def prod_eq_iff)
  have h2: "\<not> endswith (filename (ingested_event ''b.pdf'')) ''.txt''"
    by (simp add: ingested_event_def endswith_def suffix_to_prefix)
  from non_txt_is_invoice [OF h1 h2] obtain e3 w4 where
    rs: "run_stages example_env (ingested_event ''b.pdf'') (after_ingest world_pdf)
           = Inr (e3, w4)"
    and ty: "classified_type e3 = ''Invoice''"
    by blast
  have "main_cycle example_env world_pdf = Inr (Some e3, move_processed_file e3 w4)"
    by (simp add: main_cycle_def h1 rs)
  with ty h1 h2 show ?thesis by (simp add: final_event_def)
qed

section \<open>The order of the statuses\<close>

text \<open>
  C2: an event that the Ingestor has made has status \<open>INGESTED\<close>, and the Extractor
  returns it either failed or extracted. When it is failed, the stages end there: the
  event and the world are those the Extractor returned, neither the Classifier nor the
  Router has printed a line, so neither was called, and the turn of the loop ends with
  this very event, after the one line of the orchestrator. When it is extracted, the
  Classifier is called and returns it classified, the Router is called and returns it
  routed, and the turn ends with the routed event.
\<close>

theorem status_progression:
  assumes "IngestorAgent_run ev DOCS_TO_PROCESS_DIR w = (Some e0, w1)"
  shows "status e0 = ''INGESTED''
       \<and> (\<exists>e1 w2. ExtractorAgent_run ev e0 w1 = (e1, w2)
            \<and> ((status e1 = ''EXTRACTION_FAILED''
                 \<and> run_stages ev e0 w1 = Inr (e1, w2)
                 \<and> ''Classifier Agent'' \<notin> set (agents_since w1 w2)
                 \<and> ''Router Agent'' \<notin> set (agents_since w1 w2)
                 \<and> main_cycle ev w = Inr (Some e1, move_processed_file e1 w2)
                 \<and> agents_since w2 (move_processed_file e1 w2) = [''Orchestrator''])
              \<or> (status e1 = ''EXTRACTED''
                 \<and> (\<exists>e2 w3 e3 w4.
                       ClassifierAgent_run ev e1 w2 = (e2, w3)
                     \<and> status e2 = ''CLASSIFIED''
                     \<and> RouterAgent_run ev e2 w3 = Inr (e3, w4)
                     \<and> status e3 = ''ROUTED''
                     \<and> run_stages ev e0 w1 = Inr (e3, w4)
                     \<and> agents_since w2 w3 = [''Classifier Agent'', ''Classifier Agent'']
                     \<and> agents_since w3 w4 = [''Router Agent'', ''Router Agent'', ''Router Agent'']
                     \<and> main_cycle ev w = Inr (Some e3, move_processed_file e3 w4)))))"
proof -
  have st: "status e0 = ''INGESTED''" by (rule IngestorAgent_run_Some(1) [OF assms])
  show ?thesis
  proof (cases "endswith (original_path e0) ''.txt'' \<and> isl (open_read w1 (original_path e0))")
    case True
    then obtain msg where en: "endswith (original_path e0) ''.txt''"
      and op: "open_read w1 (original_path e0) = Inl msg"
      by (cases "open_read w1 (original_path e0)") auto
    obtain e1 w2 where ex: "ExtractorAgent_run ev e0 w1 = (e1, w2)"
      by (cases "ExtractorAgent_run ev e0 w1")
    from ExtractorAgent_run_failed [OF en op, of ev] ex
    have e1: "e1 = e0\<lparr>status := ''EXTRACTION_FAILED'', error_message := Some msg\<rparr>"
      and w2: "w2 = print_agent_step ''Extractor Agent'' (''An error occurred: '' @ msg) ''31''
              (print_agent_step ''Extractor Agent''
                 (''Received event for '' @ [CHR 0x27] @ filename e0 @ [CHR 0x27]) ''36'' w1)"
      by simp_all
    have s1: "status e1 = ''EXTRACTION_FAILED''" by (simp add: e1)
    have rs: "run_stages ev e0 w1 = Inr (e1, w2)"
      using run_stages_failed [OF en op, of ev] ex by simp
    have ag: "agents_since w1 w2 = [''Extractor Agent'', ''Extractor Agent'']"
      by (simp add: w2 agents_since_def)
    have mc: "main_cycle ev w = Inr (Some e1, move_processed_file e1 w2)"
      by (simp add: main_cycle_def assms rs)
    from st ex s1 rs ag mc move_processed_file_agents [of w2 e1] show ?thesis by simp
  next
    case False
    from run_stages_ok [OF this, of ev] obtain e1 e2 e3 ents x a w2 w3 w4 where
      e1: "e1 = e0\<lparr>status := ''EXTRACTED'', extracted_text := Some (resolved_text w1 e0),
                     extracted_entities := Some ents\<rparr>"
      and e2: "e2 = e1\<lparr>status := ''CLASSIFIED'',
                      classification :=
                        Some \<lparr>document_type = spec_document_type (resolved_text w1 e0),
                              confidence = py_round2 x\<rparr>\<rparr>"
      and e3: "e3 = e2\<lparr>status := ''ROUTED'',
                      routing_info := Some \<lparr>action_taken = a, routed_at = now_routed ev\<rparr>\<rparr>"
      and ex: "ExtractorAgent_run ev e0 w1 = (e1, w2)"
      and cl: "ClassifierAgent_run ev e1 w2 = (e2, w3)"
      and ro: "RouterAgent_run ev e2 w3 = Inr (e3, w4)"
      and rs: "run_stages ev e0 w1 = Inr (e3, w4)"
      and a2: "agents_since w2 w3 = [''Classifier Agent'', ''Classifier Agent'']"
      and a3: "agents_since w3 w4 = [''Router Agent'', ''Router Agent'', ''Router Agent'']"
      by blast
    have s1: "status e1 = ''EXTRACTED''" and s2: "status e2 = ''CLASSIFIED''"
      and s3: "status e3 = ''ROUTED''"
      by (simp_all add: e1 e2 e3)
    have mc: "main_cycle ev w = Inr (Some e3, move_processed_file e3 w4)"
      by (simp add: main_cycle_def assms rs)
    from st ex s1 s2 s3 cl ro rs a2 a3 mc show ?thesis by blast
  qed
qed

text \<open>C2 at the text file that cannot be opened: the turn ends with the failed event.\<close>

theorem status_progression_witness:
  "IngestorAgent_run example_env DOCS_TO_PROCESS_DIR world_unreadable
     = (Some (ingested_event ''a.txt''), after_ingest world_unreadable)
   \<and> status (ingested_event ''a.txt'') = ''INGESTED''
   \<and> final_event (main_cycle example_env world_unreadable) = Some failed_event
   \<and> status failed_event = ''EXTRACTION_FAILED''"
proof -
  have "fst (IngestorAgent_run example_env DOCS_TO_PROCESS_DIR world_unreadable)
          = Some (ingested_event ''a.txt'')"
    by (simp add: model_defs example_defs)
  then have h: "IngestorAgent_run example_env DOCS_TO_PROCESS_DIR world_unreadable
                  = (Some (ingested_event ''a.txt''), after_ingest world_unreadable)"
    by (simp add: after_ingest_def prod_eq_iff)
  have ex: "fst (ExtractorAgent_run example_env (ingested_event ''a.txt'')
                   (after_ingest world_unreadable)) = failed_event"
    by (simp add: model_defs example_defs)
  have st: "status failed_event = ''EXTRACTION_FAILED''"
    by (simp add: failed_event_def)
  from status_progression [OF h] obtain e1 w2 where
    i: "status (ingested_event ''a.txt'') = ''INGESTED''"
    and e: "ExtractorAgent_run example_env (ingested_event ''a.txt'')
              (after_ingest world_unreadable) = (e1, w2)"
    and d: "(status e1 = ''EXTRACTION_FAILED''
             \<and> main_cycle example_env world_unreadable
                 = Inr (Some e1, move_processed_file e1 w2))
          \<or> status e1 = ''EXTRACTED''"
    by blast
  from e ex have "e1 = failed_event" by simp
  with d st have "main_cycle example_env world_unreadable
                    = Inr (Some failed_event, move_processed_file failed_event w2)"
    by simp
  with h i st show ?thesis by (simp add: final_event_def)
qed

section \<open>The fields of an event that leaves the pipeline\<close>

text \<open>
  C7: the stages return an event for every event the Ingestor has made, and the turn of
  the loop ends with it. Exactly one of the two holds of it: it is routed, with its
  classification and its routing record, or it is failed, with its error message. The
  rule for the entities (there from \<open>EXTRACTED\<close> on, absent in a failed event) holds of
  the event at every stage: as the Ingestor made it, as the Extractor returned it, as the
  Classifier returned it when it was called, and at the end.
\<close>

theorem exit_event_fields:
  assumes "IngestorAgent_run ev DOCS_TO_PROCESS_DIR w = (Some e0, w1)"
  shows "\<exists>e1 w2 e w3.
           ExtractorAgent_run ev e0 w1 = (e1, w2)
         \<and> run_stages ev e0 w1 = Inr (e, w3)
         \<and> main_cycle ev w = Inr (Some e, move_processed_file e w3)
         \<and> routed_complete e \<noteq> failed_with_message e
         \<and> entities_rule e0 \<and> entities_rule e1 \<and> entities_rule e
         \<and> (status e1 = ''EXTRACTED'' \<longrightarrow>
               entities_rule (fst (ClassifierAgent_run ev e1 w2)))"
proof -
  note ing = IngestorAgent_run_Some [OF assms]
  have r0: "entities_rule e0" by (simp add: entities_rule_def ing)
  show ?thesis
  proof (cases "endswith (original_path e0) ''.txt'' \<and> isl (open_read w1 (original_path e0))")
    case True
    then obtain msg where en: "endswith (original_path e0) ''.txt''"
      and op: "open_read w1 (original_path e0) = Inl msg"
      by (cases "open_read w1 (original_path e0)") auto
    obtain e1 w2 where ex: "ExtractorAgent_run ev e0 w1 = (e1, w2)"
      by (cases "ExtractorAgent_run ev e0 w1")
    from ExtractorAgent_run_failed [OF en op, of ev] ex
    have e1: "e1 = e0\<lparr>status := ''EXTRACTION_FAILED'', error_message := Some msg\<rparr>"
      by simp
    have rs: "run_stages ev e0 w1 = Inr (e1, w2)"
      using run_stages_failed [OF en op, of ev] ex by simp
    have mc: "main_cycle ev w = Inr (Some e1, move_processed_file e1 w2)"
      by (simp add: main_cycle_def assms rs)
    have x: "routed_complete e1 \<noteq> failed_with_message e1"
      by (simp add: routed_complete_def failed_with_message_def e1)
    have r1: "entities_rule e1" by (simp add: entities_rule_def e1 ing)
    have c: "status e1 = ''EXTRACTED'' \<longrightarrow> entities_rule (fst (ClassifierAgent_run ev e1 w2))"
      by (simp add: e1)
    from ex rs mc x r0 r1 c show ?thesis by blast
  next
    case False
    from run_stages_ok [OF this, of ev] obtain e1 e2 e3 ents x a w2 w3 w4 where
      e1: "e1 = e0\<lparr>status := ''EXTRACTED'', extracted_text := Some (resolved_text w1 e0),
                     extracted_entities := Some ents\<rparr>"
      and e2: "e2 = e1\<lparr>status := ''CLASSIFIED'',
                      classification :=
                        Some \<lparr>document_type = spec_document_type (resolved_text w1 e0),
                              confidence = py_round2 x\<rparr>\<rparr>"
      and e3: "e3 = e2\<lparr>status := ''ROUTED'',
                      routing_info := Some \<lparr>action_taken = a, routed_at = now_routed ev\<rparr>\<rparr>"
      and ex: "ExtractorAgent_run ev e0 w1 = (e1, w2)"
      and cl: "ClassifierAgent_run ev e1 w2 = (e2, w3)"
      and rs: "run_stages ev e0 w1 = Inr (e3, w4)"
      by blast
    have mc: "main_cycle ev w = Inr (Some e3, move_processed_file e3 w4)"
      by (simp add: main_cycle_def assms rs)
    have x: "routed_complete e3 \<noteq> failed_with_message e3"
      by (simp add: routed_complete_def failed_with_message_def e3 e2 e1)
    have r1: "entities_rule e1" by (simp add: entities_rule_def e1)
    have r3: "entities_rule e3" by (simp add: entities_rule_def e3 e2 e1)
    have c: "status e1 = ''EXTRACTED'' \<longrightarrow> entities_rule (fst (ClassifierAgent_run ev e1 w2))"
      using cl by (simp add: entities_rule_def e2 e1)
    from ex rs mc x r0 r1 r3 c show ?thesis by blast
  qed
qed

text \<open>C7 at a readable text file: the turn ends with a routed event.\<close>

theorem exit_event_fields_witness:
  "IngestorAgent_run example_env DOCS_TO_PROCESS_DIR world_two_files
     = (Some (ingested_event ''a.txt''), after_ingest world_two_files)
   \<and> map_option routed_complete (final_event (main_cycle example_env world_two_files))
       = Some True
   \<and> map_option failed_with_message (final_event (main_cycle example_env world_two_files))
       = Some False
   \<and> map_option entities_rule (final_event (main_cycle example_env world_two_files))
       = Some True"
proof -
  have "fst (IngestorAgent_run example_env DOCS_TO_PROCESS_DIR world_two_files)
          = Some (ingested_event ''a.txt'')"
    by (simp add: model_defs example_defs)
  then have h: "IngestorAgent_run example_env DOCS_TO_PROCESS_DIR world_two_files
                  = (Some (ingested_event ''a.txt''), after_ingest world_two_files)"
    by (simp add: after_ingest_def prod_eq_iff)
  have st: "map_option status (final_event (main_cycle example_env world_two_files))
              = Some ''ROUTED''"
    by (simp add: model_defs example_defs)
  from exit_event_fields [OF h] obtain e w3 where
    mc: "main_cycle example_env world_two_files = Inr (Some e, move_processed_file e w3)"
    and x: "routed_complete e \<noteq> failed_with_message e"
    and r: "entities_rule e"
    by blast
  from mc st have "status e = ''ROUTED''" by (simp add: final_event_def)
  then have "\<not> failed_with_message e" by (simp add: failed_with_message_def)
  with x have "routed_complete e" by simp
  with \<open>\<not> failed_with_message e\<close> r mc h show ?thesis by (simp add: final_event_def)
qed

section \<open>The action of the Router\<close>

text \<open>
  C6, as the specification states it: the action string is a function of the document
  type alone, so two classified events of the same type get equal strings. The code does
  not do that for invoices: the action for an invoice ends with the entities of the
  event, and two invoices with different entities (here two invoice numbers) get
  different strings.
\<close>

theorem router_action_counterexample:
  "status (classified_event ''Invoice'' entities_a) = ''CLASSIFIED''
   \<and> status (classified_event ''Invoice'' entities_b) = ''CLASSIFIED''
   \<and> classified_type (classified_event ''Invoice'' entities_a)
       = classified_type (classified_event ''Invoice'' entities_b)
   \<and> routed_action (RouterAgent_run example_env (classified_event ''Invoice'' entities_a)
         empty_world)
       = Some (''Calling ERP API with invoice data: '' @ repr_entities entities_a)
   \<and> routed_action (RouterAgent_run example_env (classified_event ''Invoice'' entities_b)
         empty_world)
       = Some (''Calling ERP API with invoice data: '' @ repr_entities entities_b)
   \<and> routed_action (RouterAgent_run example_env (classified_event ''Invoice'' entities_a)
         empty_world)
       \<noteq> routed_action (RouterAgent_run example_env (classified_event ''Invoice'' entities_b)
           empty_world)"
  by (simp add: model_defs example_defs)

text \<open>
  C6, amended: the action string is a function of the document type and, for the type
  \<open>Invoice\<close> only, of the extracted entities. Two events of the same type, which have the
  same entities if the type is \<open>Invoice\<close>, get equal action strings, whatever else differs
  in the events, the environment and the world. The action for \<open>Contract\<close> and the one
  for \<open>Resume\<close> are fixed strings, and every other type but \<open>Invoice\<close>, so \<open>Unknown\<close> and
  any type without an entry, gets the action of the manual review.
\<close>

theorem router_action_by_type:
  assumes "classified_type e1 = classified_type e2"
    and "classified_type e1 \<noteq> ''Invoice'' \<or> extracted_entities e1 = extracted_entities e2"
  shows "routed_action (RouterAgent_run ev1 e1 w1) = routed_action (RouterAgent_run ev2 e2 w2)
       \<and> (classified_type e1 = ''Contract'' \<longrightarrow>
            routed_action (RouterAgent_run ev1 e1 w1)
              = Some ''Archiving contract to legal department database.'')
       \<and> (classified_type e1 = ''Resume'' \<longrightarrow>
            routed_action (RouterAgent_run ev1 e1 w1)
              = Some ''Forwarding resume to HR Applicant Tracking System.'')
       \<and> (classified_type e1 \<noteq> ''Invoice'' \<and> classified_type e1 \<noteq> ''Contract''
            \<and> classified_type e1 \<noteq> ''Resume'' \<longrightarrow>
            routed_action (RouterAgent_run ev1 e1 w1)
              = Some ''Flagging document for manual review.'')"
  using assms by (auto simp: routed_action_eq routing_action_def)

text \<open>The amended C6 at two invoices of different files with the same entities.\<close>

theorem router_action_by_type_witness:
  "classified_type (classified_event ''Invoice'' entities_a)
     = classified_type ((classified_event ''Invoice'' entities_a)\<lparr>filename := ''b.txt''\<rparr>)
   \<and> extracted_entities (classified_event ''Invoice'' entities_a)
     = extracted_entities ((classified_event ''Invoice'' entities_a)\<lparr>filename := ''b.txt''\<rparr>)
   \<and> routed_action (RouterAgent_run example_env (classified_event ''Invoice'' entities_a)
        empty_world)
     = routed_action (RouterAgent_run example_env
        ((classified_event ''Invoice'' entities_a)\<lparr>filename := ''b.txt''\<rparr>) world_pdf)"
proof -
  have h1: "classified_type (classified_event ''Invoice'' entities_a)
     = classified_type ((classified_event ''Invoice'' entities_a)\<lparr>filename := ''b.txt''\<rparr>)"
    by (simp add: classified_type_def classified_event_def)
  have h2: "extracted_entities (classified_event ''Invoice'' entities_a)
     = extracted_entities ((classified_event ''Invoice'' entities_a)\<lparr>filename := ''b.txt''\<rparr>)"
    by simp
  then have h2': "classified_type (classified_event ''Invoice'' entities_a) \<noteq> ''Invoice''
     \<or> extracted_entities (classified_event ''Invoice'' entities_a)
     = extracted_entities ((classified_event ''Invoice'' entities_a)\<lparr>filename := ''b.txt''\<rparr>)"
    by (rule disjI2)
  from router_action_by_type [OF h1 h2', of example_env empty_world example_env world_pdf]
    h1 h2 show ?thesis by blast
qed

section \<open>The move of the processed file\<close>

text \<open>
  C1, as the specification states it: for an event that leaves the pipeline with status
  \<open>EXTRACTION_FAILED\<close> the file is not moved out of the intake directory. The code moves
  it: for the text file that cannot be opened, the turn of the loop ends with the failed
  event, and the file is no longer in the intake directory but in the processed one.
\<close>

theorem archival_counterexample:
  "final_event (main_cycle example_env world_unreadable) = Some failed_event
   \<and> status failed_event = ''EXTRACTION_FAILED''
   \<and> entry_at world_unreadable ''documents_to_process/a.txt'' = Some unreadable_node
   \<and> final_entry (main_cycle example_env world_unreadable) ''documents_to_process/a.txt''
       = None
   \<and> final_entry (main_cycle example_env world_unreadable) ''processed_documents/a.txt''
       = Some unreadable_node"
  by (simp add: model_defs example_defs)

text \<open>
  C1, amended: for every event that leaves the stages, with status \<open>EXTRACTION_FAILED\<close>
  as with status \<open>ROUTED\<close>, the orchestrator attempts the move: the turn of the loop ends
  with \<open>move_processed_file\<close> on that event. The file is in the intake directory at that
  moment. When its rename raises no error, the file is afterwards at its path in the
  processed directory and no longer at its original path; when the rename raises an
  error, the files are as they were.
\<close>

theorem archival_attempted:
  assumes "IngestorAgent_run ev DOCS_TO_PROCESS_DIR w = (Some e0, w1)"
    and "run_stages ev e0 w1 = Inr (e, w2)"
  shows "main_cycle ev w = Inr (Some e, move_processed_file e w2)
       \<and> (\<exists>nd. entry_at w (original_path e) = Some nd
             \<and> (if rename_error nd = None
                 then entry_at (move_processed_file e w2) (original_path e) = None
                    \<and> entry_at (move_processed_file e w2)
                         (os_path_join PROCESSED_DOCS_DIR (filename e)) = Some nd
                 else files (move_processed_file e w2) = files w))"
proof -
  note ing = IngestorAgent_run_Some [OF assms(1)]
  from run_stages_total [of ev e0 w1] assms(2)
  have fn: "filename e = filename e0" and op: "original_path e = original_path e0"
    and f2: "files w2 = files w1"
    by auto
  have mc: "main_cycle ev w = Inr (Some e, move_processed_file e w2)"
    by (simp add: main_cycle_def assms)
  from claimable_entry [OF ing(11)] obtain nd where
    nd: "entry_at w (original_path e) = Some nd"
    by (auto simp: op ing(4))
  have nd2: "entry_at w2 (original_path e) = Some nd"
    using nd by (simp add: entry_at_def f2 ing(10))
  have ne: "original_path e \<noteq> os_path_join PROCESSED_DOCS_DIR (filename e)"
    using docs_processed_differ [OF ing(3)] by (simp add: op fn ing(4))
  have "if rename_error nd = None
        then entry_at (move_processed_file e w2) (original_path e) = None
           \<and> entry_at (move_processed_file e w2)
                (os_path_join PROCESSED_DOCS_DIR (filename e)) = Some nd
        else files (move_processed_file e w2) = files w"
  proof (cases "rename_error nd = None")
    case True
    with move_processed_file_entries [OF nd2] have
      "entry_at (move_processed_file e w2) =
         (\<lambda>p. if p = os_path_join PROCESSED_DOCS_DIR (filename e) then Some nd
              else if p = original_path e then None else entry_at w2 p)"
      by simp
    with True ne show ?thesis by simp
  next
    case False
    with move_processed_file_entries [OF nd2]
    have "files (move_processed_file e w2) = files w" by (simp add: f2 ing(10))
    with False show ?thesis by auto
  qed
  with mc nd show ?thesis by blast
qed

text \<open>The amended C1 at the text file that cannot be opened.\<close>

theorem archival_attempted_witness:
  "IngestorAgent_run example_env DOCS_TO_PROCESS_DIR world_unreadable
     = (Some (ingested_event ''a.txt''), after_ingest world_unreadable)
   \<and> run_stages example_env (ingested_event ''a.txt'') (after_ingest world_unreadable)
     = Inr (failed_event, after_extract ''a.txt'' world_unreadable)
   \<and> status failed_event = ''EXTRACTION_FAILED''
   \<and> main_cycle example_env world_unreadable
     = Inr (Some failed_event,
            move_processed_file failed_event (after_extract ''a.txt'' world_unreadable))
   \<and> entry_at (move_processed_file failed_event (after_extract ''a.txt'' world_unreadable))
        ''documents_to_process/a.txt'' = None
   \<and> entry_at (move_processed_file failed_event (after_extract ''a.txt'' world_unreadable))
        ''processed_documents/a.txt'' = Some unreadable_node"
proof -
  have "fst (IngestorAgent_run example_env DOCS_TO_PROCESS_DIR world_unreadable)
          = Some (ingested_event ''a.txt'')"
    by (simp add: model_defs example_defs)
  then have h1: "IngestorAgent_run example_env DOCS_TO_PROCESS_DIR world_unreadable
                  = (Some (ingested_event ''a.txt''), after_ingest world_unreadable)"
    by (simp add: after_ingest_def prod_eq_iff)
  have ex: "fst (ExtractorAgent_run example_env (ingested_event ''a.txt'')
                   (after_ingest world_unreadable)) = failed_event"
    by (simp add: model_defs example_defs)
  then have ex2: "ExtractorAgent_run example_env (ingested_event ''a.txt'')
                   (after_ingest world_unreadable)
                 = (failed_event, after_extract ''a.txt'' world_unreadable)"
    by (simp add: after_extract_def prod_eq_iff)
  have h2: "run_stages example_env (ingested_event ''a.txt'') (after_ingest world_unreadable)
              = Inr (failed_event, after_extract ''a.txt'' world_unreadable)"
    by (simp add: run_stages_def ex2 failed_event_def)
  have st: "status failed_event = ''EXTRACTION_FAILED''"
    by (simp add: failed_event_def)
  have pa: "original_path failed_event = ''documents_to_process/a.txt''"
    and pp: "os_path_join PROCESSED_DOCS_DIR (filename failed_event)
               = ''processed_documents/a.txt''"
    by (simp_all add: model_defs example_defs)
  have en: "entry_at world_unreadable ''documents_to_process/a.txt'' = Some unreadable_node"
    by (simp add: entry_at_def world_unreadable_def)
  have re: "rename_error unreadable_node = None"
    by (simp add: unreadable_node_def)
  from archival_attempted [OF h1 h2] obtain nd where
    mc: "main_cycle example_env world_unreadable
          = Inr (Some failed_event,
                 move_processed_file failed_event (after_extract ''a.txt'' world_unreadable))"
    and nd: "entry_at world_unreadable (original_path failed_event) = Some nd"
    and mv: "if rename_error nd = None
             then entry_at (move_processed_file failed_event
                     (after_extract ''a.txt'' world_unreadable)) (original_path failed_event)
                   = None
                \<and> entry_at (move_processed_file failed_event
                     (after_extract ''a.txt'' world_unreadable))
                     (os_path_join PROCESSED_DOCS_DIR (filename failed_event)) = Some nd
             else files (move_processed_file failed_event
                     (after_extract ''a.txt'' world_unreadable)) = files world_unreadable"
    by blast
  from nd en have "nd = unreadable_node" by (simp add: pa)
  with mv re have
    "entry_at (move_processed_file failed_event (after_extract ''a.txt'' world_unreadable))
        ''documents_to_process/a.txt'' = None"
    "entry_at (move_processed_file failed_event (after_extract ''a.txt'' world_unreadable))
        ''processed_documents/a.txt'' = Some unreadable_node"
    by (simp_all add: pa pp)
  with h1 h2 st mc show ?thesis by simp
qed

section \<open>One file in a turn of the loop\<close>



end
